theory Spec2Isabelle
  imports Main "HOL-Library.Word"
begin

unbundle bit_operations_syntax

section \<open>Values of the JavaScript program\<close>

text \<open>
  A JavaScript string is a sequence of UTF-16 code units; a Node \<open>Buffer\<close> is a sequence of
  bytes.  String literals of the program are written \<open>js ''...''\<close>.
\<close>

type_synonym byte = "8 word"
type_synonym jsstring = "16 word list"

definition js :: "string \<Rightarrow> jsstring" where
  "js s = map (\<lambda>c. of_nat (of_char c)) s"

text \<open>
  The values that reach the functions of the program: \<open>undefined\<close>, \<open>null\<close>, booleans,
  numbers and strings.  Of the numbers only the integers and \<open>NaN\<close> are represented.
\<close>

datatype number = NaN | Integer int

datatype jsval =
    JUndefined
  | JNull
  | JBool bool
  | JNum number
  | JStr jsstring

text \<open>JavaScript truthiness, as \<open>if (!value)\<close> tests it.\<close>

fun truthy :: "jsval \<Rightarrow> bool" where
  "truthy JUndefined = False"
| "truthy JNull = False"
| "truthy (JBool b) = b"
| "truthy (JNum NaN) = False"
| "truthy (JNum (Integer n)) = (n \<noteq> 0)"
| "truthy (JStr s) = (s \<noteq> [])"

text \<open>
  The exceptions the program can raise.  Those raised inside Node are named by the error code
  Node attaches to them; \<open>UnableToAuthenticate\<close> is the error of \<open>decipher.final()\<close> whose
  message is ``Unsupported state or unable to authenticate data''; \<open>TypeError\<close> is the
  engine's own (a method call on \<open>undefined\<close>, a call of something that is no function);
  \<open>BcryptError\<close> is the error with which the \<open>bcrypt\<close> package refuses its arguments,
  \<open>ValidationError\<close> the error of Mongoose for a document that fails its schema,
  \<open>DuplicateKeyError\<close> the error of saving a document against a unique index, and
  \<open>ApiError\<close> the repository's own class, thrown by \<open>throwError\<close> with a message and a
  status code.  \<open>ConfigurationError\<close> is the error the specification names for a
  configuration that is absent or malformed.
\<close>

datatype error =
    TypeError
  | ERR_INVALID_ARG_TYPE
  | ERR_INVALID_ARG_VALUE
  | ERR_CRYPTO_INVALID_KEYLEN
  | ERR_CRYPTO_INVALID_IV
  | ERR_CRYPTO_INVALID_AUTH_TAG
  | UnableToAuthenticate
  | BcryptError
  | ValidationError
  | DuplicateKeyError
  | ConfigurationError
  | ApiError jsstring nat

text \<open>Sequencing of computations that can throw.\<close>

definition bindE :: "error + 'a \<Rightarrow> ('a \<Rightarrow> error + 'b) \<Rightarrow> error + 'b" where
  "bindE m f = (case m of Inl e \<Rightarrow> Inl e | Inr x \<Rightarrow> f x)"

text \<open>
  The source of randomness behind \<open>crypto.randomBytes\<close>: an infinite sequence of bytes, of
  which every call takes the next ones.
\<close>

type_synonym rng = "nat \<Rightarrow> byte"

definition randomBytes :: "nat \<Rightarrow> rng \<Rightarrow> byte list \<times> rng" where
  "randomBytes n g = (map g [0..<n], \<lambda>i. g (n + i))"

section \<open>Hex encoding and string splitting\<close>

text \<open>\<open>buf.toString('hex')\<close>: two lower-case digits per byte.\<close>

definition hexDigit :: "nat \<Rightarrow> 16 word" where
  "hexDigit n = (if n < 10 then of_nat (48 + n) else of_nat (87 + n))"

fun hexEncode :: "byte list \<Rightarrow> jsstring" where
  "hexEncode [] = []"
| "hexEncode (b # bs) = hexDigit (unat b div 16) # hexDigit (unat b mod 16) # hexEncode bs"

text \<open>
  Decoding of a hex string as Node does it (\<open>Buffer.from(s, 'hex')\<close>, and the \<open>'hex'\<close>
  input encoding of \<open>update\<close>): digits of either case are accepted, and the data is truncated
  at the first pair that is not two hex digits (a single trailing digit is dropped as well).
  Nothing is raised.
\<close>

definition unhex :: "16 word \<Rightarrow> nat option" where
  "unhex c = (let n = unat c in
     if 48 \<le> n \<and> n \<le> 57 then Some (n - 48)
     else if 97 \<le> n \<and> n \<le> 102 then Some (n - 87)
     else if 65 \<le> n \<and> n \<le> 70 then Some (n - 55)
     else None)"

fun hexDecode :: "jsstring \<Rightarrow> byte list" where
  "hexDecode (a # b # cs) =
     (case unhex a of
        None \<Rightarrow> []
      | Some x \<Rightarrow> (case unhex b of
          None \<Rightarrow> []
        | Some y \<Rightarrow> of_nat (16 * x + y) # hexDecode cs))"
| "hexDecode cs = []"

text \<open>
  \<open>Buffer.from(v, 'hex')\<close> where \<open>v\<close> may be \<open>undefined\<close> (a configuration value that is
  absent, an array element that does not exist): \<open>undefined\<close> is refused with a
  \<open>TypeError\<close> of code \<open>ERR_INVALID_ARG_TYPE\<close>.
\<close>

definition Buffer_from_hex :: "jsstring option \<Rightarrow> error + byte list" where
  "Buffer_from_hex v = (case v of None \<Rightarrow> Inl ERR_INVALID_ARG_TYPE | Some s \<Rightarrow> Inr (hexDecode s))"

text \<open>\<open>s.split(':')\<close>: the segments between the separators; never an empty array.\<close>

fun js_split :: "16 word \<Rightarrow> jsstring \<Rightarrow> jsstring list" where
  "js_split sep [] = [[]]"
| "js_split sep (c # cs) =
     (if c = sep then [] # js_split sep cs
      else (case js_split sep cs of
              [] \<Rightarrow> [[c]]
            | x # xs \<Rightarrow> (c # x) # xs))"

definition colon :: "16 word" where
  "colon = 58"

text \<open>Array destructuring \<open>const [a, b, c] = arr\<close>: a missing element is \<open>undefined\<close>.\<close>

definition element :: "'a list \<Rightarrow> nat \<Rightarrow> 'a option" where
  "element xs i = (if i < length xs then Some (xs ! i) else None)"

section \<open>UTF-8\<close>

text \<open>
  The \<open>'utf8'\<close> input encoding: the string's code units are read as UTF-16, a surrogate
  pair gives one code point of four bytes, and a surrogate that has no partner is encoded as
  U+FFFD.
\<close>

definition isHigh :: "nat \<Rightarrow> bool" where
  "isHigh n = (0xD800 \<le> n \<and> n \<le> 0xDBFF)"

definition isLow :: "nat \<Rightarrow> bool" where
  "isLow n = (0xDC00 \<le> n \<and> n \<le> 0xDFFF)"

definition utf8Bytes :: "nat \<Rightarrow> byte list" where
  "utf8Bytes cp =
     (if cp < 0x80 then [of_nat cp]
      else if cp < 0x800 then [of_nat (0xC0 + cp div 64), of_nat (0x80 + cp mod 64)]
      else if cp < 0x10000 then
        [of_nat (0xE0 + cp div 64 div 64), of_nat (0x80 + cp div 64 mod 64), of_nat (0x80 + cp mod 64)]
      else
        [of_nat (0xF0 + cp div 64 div 64 div 64), of_nat (0x80 + cp div 64 div 64 mod 64),
         of_nat (0x80 + cp div 64 mod 64), of_nat (0x80 + cp mod 64)])"

fun utf8Encode :: "jsstring \<Rightarrow> byte list" where
  "utf8Encode [] = []"
| "utf8Encode [c] =
     (if isHigh (unat c) \<or> isLow (unat c) then utf8Bytes 0xFFFD else utf8Bytes (unat c))"
| "utf8Encode (c # d # cs) =
     (if isHigh (unat c) then
        (if isLow (unat d)
         then utf8Bytes (0x10000 + (unat c - 0xD800) * 1024 + (unat d - 0xDC00)) @ utf8Encode cs
         else utf8Bytes 0xFFFD @ utf8Encode (d # cs))
      else if isLow (unat c) then utf8Bytes 0xFFFD @ utf8Encode (d # cs)
      else utf8Bytes (unat c) @ utf8Encode (d # cs))"

text \<open>
  The \<open>'utf8'\<close> output encoding is a \<open>StringDecoder\<close>: \<open>write\<close> turns the bytes it is
  given into the code units of the characters they complete and keeps the bytes of an
  unfinished character; \<open>end\<close> gives U+FFFD for an unfinished character.  An ill-formed
  sequence gives U+FFFD for each maximal ill-formed part, over-long forms, surrogates and
  code points above U+10FFFF included (the decoder of the Encoding Standard).
\<close>

definition codeUnits :: "nat \<Rightarrow> jsstring" where
  "codeUnits cp =
     (if cp < 0x10000 then [of_nat cp]
      else [of_nat (0xD800 + (cp - 0x10000) div 1024), of_nat (0xDC00 + (cp - 0x10000) mod 1024)])"

record utf8state =
  needed :: nat
  codepoint :: nat
  lower :: nat
  upper :: nat

definition utf8Start :: utf8state where
  "utf8Start = \<lparr>needed = 0, codepoint = 0, lower = 0x80, upper = 0xBF\<rparr>"

definition leadByte :: "nat \<Rightarrow> jsstring \<times> utf8state" where
  "leadByte n =
     (if n < 0x80 then (codeUnits n, utf8Start)
      else if 0xC2 \<le> n \<and> n \<le> 0xDF then
        ([], \<lparr>needed = 1, codepoint = n mod 32, lower = 0x80, upper = 0xBF\<rparr>)
      else if 0xE0 \<le> n \<and> n \<le> 0xEF then
        ([], \<lparr>needed = 2, codepoint = n mod 16,
              lower = (if n = 0xE0 then 0xA0 else 0x80),
              upper = (if n = 0xED then 0x9F else 0xBF)\<rparr>)
      else if 0xF0 \<le> n \<and> n \<le> 0xF4 then
        ([], \<lparr>needed = 3, codepoint = n mod 8,
              lower = (if n = 0xF0 then 0x90 else 0x80),
              upper = (if n = 0xF4 then 0x8F else 0xBF)\<rparr>)
      else ([0xFFFD], utf8Start))"

definition utf8Step :: "utf8state \<Rightarrow> nat \<Rightarrow> jsstring \<times> utf8state" where
  "utf8Step st n =
     (if needed st = 0 then leadByte n
      else if n < lower st \<or> upper st < n then
        (case leadByte n of (out, st') \<Rightarrow> (0xFFFD # out, st'))
      else
        (let cp = codepoint st * 64 + n mod 64 in
         if needed st = 1 then (codeUnits cp, utf8Start)
         else ([], \<lparr>needed = needed st - 1, codepoint = cp, lower = 0x80, upper = 0xBF\<rparr>)))"

fun utf8Write :: "utf8state \<Rightarrow> byte list \<Rightarrow> jsstring \<times> utf8state" where
  "utf8Write st [] = ([], st)"
| "utf8Write st (b # bs) =
     (case utf8Step st (unat b) of (out, st') \<Rightarrow>
        (case utf8Write st' bs of (outs, st'') \<Rightarrow> (out @ outs, st'')))"

definition utf8End :: "utf8state \<Rightarrow> jsstring" where
  "utf8End st = (if needed st = 0 then [] else [0xFFFD])"

text \<open>\<open>buf.toString('utf8')\<close>: the whole buffer written to a decoder, and the decoder ended.\<close>

definition utf8Decode :: "byte list \<Rightarrow> jsstring" where
  "utf8Decode bs = (case utf8Write utf8Start bs of (out, st) \<Rightarrow> out @ utf8End st)"

text \<open>
  A string is well formed when every surrogate in it is half of a pair: these are the strings
  that are the UTF-16 form of a sequence of Unicode characters, and so the strings UTF-8 can
  encode without loss.
\<close>

fun wellFormed :: "jsstring \<Rightarrow> bool" where
  "wellFormed [] = True"
| "wellFormed [c] = (\<not> isHigh (unat c) \<and> \<not> isLow (unat c))"
| "wellFormed (c # d # cs) =
     (if isHigh (unat c) then isLow (unat d) \<and> wellFormed cs
      else \<not> isLow (unat c) \<and> wellFormed (d # cs))"

section \<open>AES-256 in Galois/Counter Mode\<close>

text \<open>
  The cipher behind \<open>crypto.createCipheriv('aes-256-gcm', key, iv)\<close>: the block cipher of
  FIPS 197 with a 256-bit key, in the mode of NIST SP 800-38D.  No additional authenticated
  data is used by the program.  A block is a 128-bit word, its first byte the most
  significant one.
\<close>

type_synonym block = "128 word"

text \<open>The S-box of FIPS 197, figure 7.\<close>

definition sbox :: "byte list" where
  "sbox = [
    0x63, 0x7c, 0x77, 0x7b, 0xf2, 0x6b, 0x6f, 0xc5, 0x30, 0x01, 0x67, 0x2b, 0xfe, 0xd7, 0xab, 0x76,
    0xca, 0x82, 0xc9, 0x7d, 0xfa, 0x59, 0x47, 0xf0, 0xad, 0xd4, 0xa2, 0xaf, 0x9c, 0xa4, 0x72, 0xc0,
    0xb7, 0xfd, 0x93, 0x26, 0x36, 0x3f, 0xf7, 0xcc, 0x34, 0xa5, 0xe5, 0xf1, 0x71, 0xd8, 0x31, 0x15,
    0x04, 0xc7, 0x23, 0xc3, 0x18, 0x96, 0x05, 0x9a, 0x07, 0x12, 0x80, 0xe2, 0xeb, 0x27, 0xb2, 0x75,
    0x09, 0x83, 0x2c, 0x1a, 0x1b, 0x6e, 0x5a, 0xa0, 0x52, 0x3b, 0xd6, 0xb3, 0x29, 0xe3, 0x2f, 0x84,
    0x53, 0xd1, 0x00, 0xed, 0x20, 0xfc, 0xb1, 0x5b, 0x6a, 0xcb, 0xbe, 0x39, 0x4a, 0x4c, 0x58, 0xcf,
    0xd0, 0xef, 0xaa, 0xfb, 0x43, 0x4d, 0x33, 0x85, 0x45, 0xf9, 0x02, 0x7f, 0x50, 0x3c, 0x9f, 0xa8,
    0x51, 0xa3, 0x40, 0x8f, 0x92, 0x9d, 0x38, 0xf5, 0xbc, 0xb6, 0xda, 0x21, 0x10, 0xff, 0xf3, 0xd2,
    0xcd, 0x0c, 0x13, 0xec, 0x5f, 0x97, 0x44, 0x17, 0xc4, 0xa7, 0x7e, 0x3d, 0x64, 0x5d, 0x19, 0x73,
    0x60, 0x81, 0x4f, 0xdc, 0x22, 0x2a, 0x90, 0x88, 0x46, 0xee, 0xb8, 0x14, 0xde, 0x5e, 0x0b, 0xdb,
    0xe0, 0x32, 0x3a, 0x0a, 0x49, 0x06, 0x24, 0x5c, 0xc2, 0xd3, 0xac, 0x62, 0x91, 0x95, 0xe4, 0x79,
    0xe7, 0xc8, 0x37, 0x6d, 0x8d, 0xd5, 0x4e, 0xa9, 0x6c, 0x56, 0xf4, 0xea, 0x65, 0x7a, 0xae, 0x08,
    0xba, 0x78, 0x25, 0x2e, 0x1c, 0xa6, 0xb4, 0xc6, 0xe8, 0xdd, 0x74, 0x1f, 0x4b, 0xbd, 0x8b, 0x8a,
    0x70, 0x3e, 0xb5, 0x66, 0x48, 0x03, 0xf6, 0x0e, 0x61, 0x35, 0x57, 0xb9, 0x86, 0xc1, 0x1d, 0x9e,
    0xe1, 0xf8, 0x98, 0x11, 0x69, 0xd9, 0x8e, 0x94, 0x9b, 0x1e, 0x87, 0xe9, 0xce, 0x55, 0x28, 0xdf,
    0x8c, 0xa1, 0x89, 0x0d, 0xbf, 0xe6, 0x42, 0x68, 0x41, 0x99, 0x2d, 0x0f, 0xb0, 0x54, 0xbb, 0x16
  ]"

definition subByte :: "byte \<Rightarrow> byte" where
  "subByte b = sbox ! unat b"

definition xtime :: "byte \<Rightarrow> byte" where
  "xtime b = (if bit b 7 then push_bit 1 b XOR 0x1b else push_bit 1 b)"

definition xorBytes :: "byte list \<Rightarrow> byte list \<Rightarrow> byte list" where
  "xorBytes xs ys = map2 (XOR) xs ys"

definition subWord :: "byte list \<Rightarrow> byte list" where
  "subWord w = map subByte w"

definition rotWord :: "byte list \<Rightarrow> byte list" where
  "rotWord w = drop 1 w @ take 1 w"

definition rcon :: "byte list" where
  "rcon = [0x01, 0x02, 0x04, 0x08, 0x10, 0x20, 0x40]"

text \<open>Key expansion for a key of eight words, and the fourteen rounds.\<close>

definition keyWords :: "byte list \<Rightarrow> byte list list" where
  "keyWords key = map (\<lambda>i. take 4 (drop (4 * i) key)) [0..<8]"

definition keyExpansionStep :: "nat \<Rightarrow> byte list list \<Rightarrow> byte list list" where
  "keyExpansionStep i w =
     (let temp = w ! (i - 1);
          temp' = (if i mod 8 = 0 then xorBytes (subWord (rotWord temp)) [rcon ! (i div 8 - 1), 0, 0, 0]
                   else if i mod 8 = 4 then subWord temp
                   else temp)
      in w @ [xorBytes (w ! (i - 8)) temp'])"

definition keyExpansion :: "byte list \<Rightarrow> byte list list" where
  "keyExpansion key = fold keyExpansionStep [8..<60] (keyWords key)"

definition roundKey :: "byte list list \<Rightarrow> nat \<Rightarrow> byte list" where
  "roundKey w r = concat (take 4 (drop (4 * r) w))"

definition subBytes :: "byte list \<Rightarrow> byte list" where
  "subBytes st = map subByte st"

definition shiftRows :: "byte list \<Rightarrow> byte list" where
  "shiftRows st = map (\<lambda>i. st ! i) [0, 5, 10, 15, 4, 9, 14, 3, 8, 13, 2, 7, 12, 1, 6, 11]"

definition mixColumn :: "byte list \<Rightarrow> byte list" where
  "mixColumn col =
     (let a = col ! 0; b = col ! 1; c = col ! 2; d = col ! 3 in
      [xtime a XOR (xtime b XOR b) XOR c XOR d,
       a XOR xtime b XOR (xtime c XOR c) XOR d,
       a XOR b XOR xtime c XOR (xtime d XOR d),
       (xtime a XOR a) XOR b XOR c XOR xtime d])"

definition mixColumns :: "byte list \<Rightarrow> byte list" where
  "mixColumns st = concat (map (\<lambda>c. mixColumn (take 4 (drop (4 * c) st))) [0..<4])"

definition aesRound :: "byte list list \<Rightarrow> nat \<Rightarrow> byte list \<Rightarrow> byte list" where
  "aesRound w r st = xorBytes (mixColumns (shiftRows (subBytes st))) (roundKey w r)"

definition cipher :: "byte list list \<Rightarrow> byte list \<Rightarrow> byte list" where
  "cipher w inp =
     (let st = fold (aesRound w) [1..<14] (xorBytes inp (roundKey w 0))
      in xorBytes (shiftRows (subBytes st)) (roundKey w 14))"

definition bytesToBlock :: "byte list \<Rightarrow> block" where
  "bytesToBlock bs = foldl (\<lambda>acc b. push_bit 8 acc OR ucast b) 0 (take 16 (bs @ replicate 16 0))"

definition blockToBytes :: "block \<Rightarrow> byte list" where
  "blockToBytes w = map (\<lambda>i. ucast (drop_bit (8 * (15 - i)) w)) [0..<16]"

definition aesBlock :: "byte list \<Rightarrow> block \<Rightarrow> block" where
  "aesBlock key x = bytesToBlock (cipher (keyExpansion key) (blockToBytes x))"

text \<open>Multiplication in the field of 2 ^ 128 elements, and the hash GHASH.\<close>

definition gmulStep :: "block \<Rightarrow> nat \<Rightarrow> block \<times> block \<Rightarrow> block \<times> block" where
  "gmulStep x i zv =
     (case zv of (z, v) \<Rightarrow>
        (if bit x (127 - i) then z XOR v else z,
         if bit v 0 then drop_bit 1 v XOR push_bit 120 0xe1 else drop_bit 1 v))"

definition gmul :: "block \<Rightarrow> block \<Rightarrow> block" where
  "gmul x y = fst (fold (gmulStep x) [0..<128] (0, y))"

fun ghash :: "block \<Rightarrow> block \<Rightarrow> block list \<Rightarrow> block" where
  "ghash h y [] = y"
| "ghash h y (x # xs) = ghash h (gmul (y XOR x) h) xs"

definition blocks :: "byte list \<Rightarrow> block list" where
  "blocks bs = map (\<lambda>i. bytesToBlock (take 16 (drop (16 * i) bs))) [0..<(length bs + 15) div 16]"

definition lenBlock :: "nat \<Rightarrow> nat \<Rightarrow> block" where
  "lenBlock a c = push_bit 64 (of_nat ((8 * a) mod 2 ^ 64)) OR of_nat ((8 * c) mod 2 ^ 64)"

text \<open>The counter blocks, the key stream and the tag.\<close>

definition inc32 :: "block \<Rightarrow> block" where
  "inc32 x = (x AND NOT 0xffffffff) OR ((x + 1) AND 0xffffffff)"

definition counter0 :: "block \<Rightarrow> byte list \<Rightarrow> block" where
  "counter0 h iv =
     (if length iv = 12 then bytesToBlock (iv @ [0, 0, 0, 1])
      else ghash h 0 (blocks iv @ [lenBlock 0 (length iv)]))"

definition keystream :: "byte list \<Rightarrow> block \<Rightarrow> nat \<Rightarrow> byte list" where
  "keystream key cb n = concat (map (\<lambda>i. blockToBytes (aesBlock key ((inc32 ^^ i) cb))) [0..<n])"

definition gctr :: "byte list \<Rightarrow> block \<Rightarrow> byte list \<Rightarrow> byte list" where
  "gctr key cb xs = xorBytes xs (keystream key cb ((length xs + 15) div 16))"

definition gcmTag :: "byte list \<Rightarrow> byte list \<Rightarrow> byte list \<Rightarrow> byte list" where
  "gcmTag key iv c =
     (let h = aesBlock key 0;
          s = ghash h 0 (blocks c @ [lenBlock 0 (length c)])
      in blockToBytes (aesBlock key (counter0 h iv) XOR s))"

definition gcmCrypt :: "byte list \<Rightarrow> byte list \<Rightarrow> byte list \<Rightarrow> byte list" where
  "gcmCrypt key iv xs = gctr key (inc32 (counter0 (aesBlock key 0) iv)) xs"

section \<open>The cipher objects of \<open>node:crypto\<close>\<close>

text \<open>
  What a \<open>Cipher\<close> or \<open>Decipher\<close> object of the program holds: the key and the IV it
  was created with, the ciphertext that has gone through it, the tag \<open>setAuthTag\<close> has set
  and the state of the string decoder of its output.
\<close>

record cipherObj =
  cipherKey :: "byte list"
  cipherIV :: "byte list"
  cipherText :: "byte list"
  authTag :: "byte list"
  decoder :: utf8state

text \<open>
  \<open>createCipheriv\<close> and \<open>createDecipheriv\<close> for \<open>aes-256-gcm\<close> refuse an empty IV
  (\<open>ERR_CRYPTO_INVALID_IV\<close>; any other length is accepted in this mode) and a key that is
  not 32 bytes long (\<open>ERR_CRYPTO_INVALID_KEYLEN\<close>).
\<close>

definition createCipheriv :: "byte list \<Rightarrow> byte list \<Rightarrow> error + cipherObj" where
  "createCipheriv key iv =
     (if iv = [] then Inl ERR_CRYPTO_INVALID_IV
      else if length key \<noteq> 32 then Inl ERR_CRYPTO_INVALID_KEYLEN
      else Inr \<lparr>cipherKey = key, cipherIV = iv, cipherText = [], authTag = [], decoder = utf8Start\<rparr>)"

definition createDecipheriv :: "byte list \<Rightarrow> byte list \<Rightarrow> error + cipherObj" where
  "createDecipheriv key iv = createCipheriv key iv"

text \<open>
  \<open>cipher.update(data, 'utf8', 'hex')\<close> on a fresh object: \<open>data\<close> has to be a string; its
  UTF-8 bytes are encrypted and the hex form of the ciphertext is returned (the mode is a
  stream mode: every byte given comes out at once).  \<open>cipher.final('hex')\<close> has nothing left
  to return, and \<open>cipher.getAuthTag()\<close> is the 16-byte tag.
\<close>

definition cipher_update :: "cipherObj \<Rightarrow> jsval \<Rightarrow> error + cipherObj \<times> jsstring" where
  "cipher_update c data =
     (case data of
        JStr s \<Rightarrow>
          (let ct = gcmCrypt (cipherKey c) (cipherIV c) (utf8Encode s)
           in Inr (c\<lparr>cipherText := ct\<rparr>, hexEncode ct))
      | _ \<Rightarrow> Inl ERR_INVALID_ARG_TYPE)"

definition cipher_final :: "cipherObj \<Rightarrow> jsstring" where
  "cipher_final c = []"

definition getAuthTag :: "cipherObj \<Rightarrow> byte list" where
  "getAuthTag c = gcmTag (cipherKey c) (cipherIV c) (cipherText c)"

text \<open>
  \<open>decipher.setAuthTag(tag)\<close>: without an \<open>authTagLength\<close> option the tag may be 4, 8 or 12
  to 16 bytes long; any other length is refused (\<open>ERR_CRYPTO_INVALID_AUTH_TAG\<close>).
\<close>

definition setAuthTag :: "cipherObj \<Rightarrow> byte list \<Rightarrow> error + cipherObj" where
  "setAuthTag d tag =
     (if length tag \<in> {4, 8, 12, 13, 14, 15, 16} then Inr (d\<lparr>authTag := tag\<rparr>)
      else Inl ERR_CRYPTO_INVALID_AUTH_TAG)"

text \<open>
  \<open>decipher.update(content, 'hex', 'utf8')\<close> on a fresh object: \<open>undefined\<close> is refused
  (\<open>ERR_INVALID_ARG_TYPE\<close>), and so is a string of odd length for the \<open>'hex'\<close> encoding
  (\<open>ERR_INVALID_ARG_VALUE\<close>).  The decoded bytes are decrypted and the characters they
  complete are returned.  \<open>decipher.final('utf8')\<close> compares the tag of the ciphertext with
  the tag that was set, over the length of the latter, throws when they differ and otherwise
  returns what the string decoder still holds.
\<close>

definition decipher_update :: "cipherObj \<Rightarrow> jsstring option \<Rightarrow> error + cipherObj \<times> jsstring" where
  "decipher_update d content =
     (case content of
        None \<Rightarrow> Inl ERR_INVALID_ARG_TYPE
      | Some s \<Rightarrow>
          if odd (length s) then Inl ERR_INVALID_ARG_VALUE
          else
            (let ct = hexDecode s;
                 (out, st) = utf8Write (decoder d) (gcmCrypt (cipherKey d) (cipherIV d) ct)
             in Inr (d\<lparr>cipherText := ct, decoder := st\<rparr>, out)))"

definition decipher_final :: "cipherObj \<Rightarrow> error + jsstring" where
  "decipher_final d =
     (if take (length (authTag d)) (gcmTag (cipherKey d) (cipherIV d) (cipherText d)) = authTag d
      then Inr (utf8End (decoder d))
      else Inl UnableToAuthenticate)"

section \<open>\<open>src/common/security/encryption.security.js\<close>\<close>

text \<open>
  \<open>securityKey\<close> is a value of the configuration module, which is not among the sources:
  it is a parameter here, a string or \<open>undefined\<close>.  The other value the file takes from
  there is \<open>algorithm\<close>.

  Modelled from the spec: \<open>algorithm\<close>, which the file's own comment and the specification
  both give as AES-256-GCM.
\<close>

definition encryptData :: "jsstring option \<Rightarrow> jsval \<Rightarrow> rng \<Rightarrow> (error + jsstring) \<times> rng" where
  "encryptData securityKey data g =
     (case randomBytes 12 g of (IV, g') \<Rightarrow>
        (bindE (Buffer_from_hex securityKey) (\<lambda>key.
         bindE (createCipheriv key IV) (\<lambda>cipher.
         bindE (cipher_update cipher data) (\<lambda>(cipher', encrypted).
           let encrypted' = encrypted @ cipher_final cipher';
               tag = hexEncode (getAuthTag cipher')
           in Inr (hexEncode IV @ colon # tag @ colon # encrypted')))),
         g'))"

definition decryptData :: "jsstring option \<Rightarrow> jsval \<Rightarrow> error + jsstring" where
  "decryptData securityKey encryptedData =
     (case encryptedData of
        JStr s \<Rightarrow>
          (let parts = js_split colon s;
               iv = element parts 0;
               tag = element parts 1;
               content = element parts 2
           in bindE (Buffer_from_hex securityKey) (\<lambda>key.
              bindE (Buffer_from_hex iv) (\<lambda>ivBuf.
              bindE (createDecipheriv key ivBuf) (\<lambda>decipher.
              bindE (Buffer_from_hex tag) (\<lambda>tagBuf.
              bindE (setAuthTag decipher tagBuf) (\<lambda>decipher'.
              bindE (decipher_update decipher' content) (\<lambda>(decipher'', decrypted).
              bindE (decipher_final decipher'') (\<lambda>rest.
                Inr (decrypted @ rest)))))))))
      | _ \<Rightarrow> Inl TypeError)"

section \<open>bcrypt\<close>

text \<open>
  The hash behind \<open>bcrypt.hash\<close> and \<open>bcrypt.compare\<close>: the key setup of Blowfish made
  expensive (Provos and Mazieres), as the \<open>bcrypt\<close> package for Node computes it.  The state
  of the cipher is one list of 32-bit words, the 18 subkeys followed by the four S-boxes of 256
  words; it starts as the digits of the fractional part of pi.
\<close>

type_synonym u32 = "32 word"

definition piWords :: "u32 list" where
  "piWords = [
    0x243f6a88, 0x85a308d3, 0x13198a2e, 0x03707344, 0xa4093822, 0x299f31d0,
    0x082efa98, 0xec4e6c89, 0x452821e6, 0x38d01377, 0xbe5466cf, 0x34e90c6c,
    0xc0ac29b7, 0xc97c50dd, 0x3f84d5b5, 0xb5470917, 0x9216d5d9, 0x8979fb1b,
    0xd1310ba6, 0x98dfb5ac, 0x2ffd72db, 0xd01adfb7, 0xb8e1afed, 0x6a267e96,
    0xba7c9045, 0xf12c7f99, 0x24a19947, 0xb3916cf7, 0x0801f2e2, 0x858efc16,
    0x636920d8, 0x71574e69, 0xa458fea3, 0xf4933d7e, 0x0d95748f, 0x728eb658,
    0x718bcd58, 0x82154aee, 0x7b54a41d, 0xc25a59b5, 0x9c30d539, 0x2af26013,
    0xc5d1b023, 0x286085f0, 0xca417918, 0xb8db38ef, 0x8e79dcb0, 0x603a180e,
    0x6c9e0e8b, 0xb01e8a3e, 0xd71577c1, 0xbd314b27, 0x78af2fda, 0x55605c60,
    0xe65525f3, 0xaa55ab94, 0x57489862, 0x63e81440, 0x55ca396a, 0x2aab10b6,
    0xb4cc5c34, 0x1141e8ce, 0xa15486af, 0x7c72e993, 0xb3ee1411, 0x636fbc2a,
    0x2ba9c55d, 0x741831f6, 0xce5c3e16, 0x9b87931e, 0xafd6ba33, 0x6c24cf5c,
    0x7a325381, 0x28958677, 0x3b8f4898, 0x6b4bb9af, 0xc4bfe81b, 0x66282193,
    0x61d809cc, 0xfb21a991, 0x487cac60, 0x5dec8032, 0xef845d5d, 0xe98575b1,
    0xdc262302, 0xeb651b88, 0x23893e81, 0xd396acc5, 0x0f6d6ff3, 0x83f44239,
    0x2e0b4482, 0xa4842004, 0x69c8f04a, 0x9e1f9b5e, 0x21c66842, 0xf6e96c9a,
    0x670c9c61, 0xabd388f0, 0x6a51a0d2, 0xd8542f68, 0x960fa728, 0xab5133a3,
    0x6eef0b6c, 0x137a3be4, 0xba3bf050, 0x7efb2a98, 0xa1f1651d, 0x39af0176,
    0x66ca593e, 0x82430e88, 0x8cee8619, 0x456f9fb4, 0x7d84a5c3, 0x3b8b5ebe,
    0xe06f75d8, 0x85c12073, 0x401a449f, 0x56c16aa6, 0x4ed3aa62, 0x363f7706,
    0x1bfedf72, 0x429b023d, 0x37d0d724, 0xd00a1248, 0xdb0fead3, 0x49f1c09b,
    0x075372c9, 0x80991b7b, 0x25d479d8, 0xf6e8def7, 0xe3fe501a, 0xb6794c3b,
    0x976ce0bd, 0x04c006ba, 0xc1a94fb6, 0x409f60c4, 0x5e5c9ec2, 0x196a2463,
    0x68fb6faf, 0x3e6c53b5, 0x1339b2eb, 0x3b52ec6f, 0x6dfc511f, 0x9b30952c,
    0xcc814544, 0xaf5ebd09, 0xbee3d004, 0xde334afd, 0x660f2807, 0x192e4bb3,
    0xc0cba857, 0x45c8740f, 0xd20b5f39, 0xb9d3fbdb, 0x5579c0bd, 0x1a60320a,
    0xd6a100c6, 0x402c7279, 0x679f25fe, 0xfb1fa3cc, 0x8ea5e9f8, 0xdb3222f8,
    0x3c7516df, 0xfd616b15, 0x2f501ec8, 0xad0552ab, 0x323db5fa, 0xfd238760,
    0x53317b48, 0x3e00df82, 0x9e5c57bb, 0xca6f8ca0, 0x1a87562e, 0xdf1769db,
    0xd542a8f6, 0x287effc3, 0xac6732c6, 0x8c4f5573, 0x695b27b0, 0xbbca58c8,
    0xe1ffa35d, 0xb8f011a0, 0x10fa3d98, 0xfd2183b8, 0x4afcb56c, 0x2dd1d35b,
    0x9a53e479, 0xb6f84565, 0xd28e49bc, 0x4bfb9790, 0xe1ddf2da, 0xa4cb7e33,
    0x62fb1341, 0xcee4c6e8, 0xef20cada, 0x36774c01, 0xd07e9efe, 0x2bf11fb4,
    0x95dbda4d, 0xae909198, 0xeaad8e71, 0x6b93d5a0, 0xd08ed1d0, 0xafc725e0,
    0x8e3c5b2f, 0x8e7594b7, 0x8ff6e2fb, 0xf2122b64, 0x8888b812, 0x900df01c,
    0x4fad5ea0, 0x688fc31c, 0xd1cff191, 0xb3a8c1ad, 0x2f2f2218, 0xbe0e1777,
    0xea752dfe, 0x8b021fa1, 0xe5a0cc0f, 0xb56f74e8, 0x18acf3d6, 0xce89e299,
    0xb4a84fe0, 0xfd13e0b7, 0x7cc43b81, 0xd2ada8d9, 0x165fa266, 0x80957705,
    0x93cc7314, 0x211a1477, 0xe6ad2065, 0x77b5fa86, 0xc75442f5, 0xfb9d35cf,
    0xebcdaf0c, 0x7b3e89a0, 0xd6411bd3, 0xae1e7e49, 0x00250e2d, 0x2071b35e,
    0x226800bb, 0x57b8e0af, 0x2464369b, 0xf009b91e, 0x5563911d, 0x59dfa6aa,
    0x78c14389, 0xd95a537f, 0x207d5ba2, 0x02e5b9c5, 0x83260376, 0x6295cfa9,
    0x11c81968, 0x4e734a41, 0xb3472dca, 0x7b14a94a, 0x1b510052, 0x9a532915,
    0xd60f573f, 0xbc9bc6e4, 0x2b60a476, 0x81e67400, 0x08ba6fb5, 0x571be91f,
    0xf296ec6b, 0x2a0dd915, 0xb6636521, 0xe7b9f9b6, 0xff34052e, 0xc5855664,
    0x53b02d5d, 0xa99f8fa1, 0x08ba4799, 0x6e85076a, 0x4b7a70e9, 0xb5b32944,
    0xdb75092e, 0xc4192623, 0xad6ea6b0, 0x49a7df7d, 0x9cee60b8, 0x8fedb266,
    0xecaa8c71, 0x699a17ff, 0x5664526c, 0xc2b19ee1, 0x193602a5, 0x75094c29,
    0xa0591340, 0xe4183a3e, 0x3f54989a, 0x5b429d65, 0x6b8fe4d6, 0x99f73fd6,
    0xa1d29c07, 0xefe830f5, 0x4d2d38e6, 0xf0255dc1, 0x4cdd2086, 0x8470eb26,
    0x6382e9c6, 0x021ecc5e, 0x09686b3f, 0x3ebaefc9, 0x3c971814, 0x6b6a70a1,
    0x687f3584, 0x52a0e286, 0xb79c5305, 0xaa500737, 0x3e07841c, 0x7fdeae5c,
    0x8e7d44ec, 0x5716f2b8, 0xb03ada37, 0xf0500c0d, 0xf01c1f04, 0x0200b3ff,
    0xae0cf51a, 0x3cb574b2, 0x25837a58, 0xdc0921bd, 0xd19113f9, 0x7ca92ff6,
    0x94324773, 0x22f54701, 0x3ae5e581, 0x37c2dadc, 0xc8b57634, 0x9af3dda7,
    0xa9446146, 0x0fd0030e, 0xecc8c73e, 0xa4751e41, 0xe238cd99, 0x3bea0e2f,
    0x3280bba1, 0x183eb331, 0x4e548b38, 0x4f6db908, 0x6f420d03, 0xf60a04bf,
    0x2cb81290, 0x24977c79, 0x5679b072, 0xbcaf89af, 0xde9a771f, 0xd9930810,
    0xb38bae12, 0xdccf3f2e, 0x5512721f, 0x2e6b7124, 0x501adde6, 0x9f84cd87,
    0x7a584718, 0x7408da17, 0xbc9f9abc, 0xe94b7d8c, 0xec7aec3a, 0xdb851dfa,
    0x63094366, 0xc464c3d2, 0xef1c1847, 0x3215d908, 0xdd433b37, 0x24c2ba16,
    0x12a14d43, 0x2a65c451, 0x50940002, 0x133ae4dd, 0x71dff89e, 0x10314e55,
    0x81ac77d6, 0x5f11199b, 0x043556f1, 0xd7a3c76b, 0x3c11183b, 0x5924a509,
    0xf28fe6ed, 0x97f1fbfa, 0x9ebabf2c, 0x1e153c6e, 0x86e34570, 0xeae96fb1,
    0x860e5e0a, 0x5a3e2ab3, 0x771fe71c, 0x4e3d06fa, 0x2965dcb9, 0x99e71d0f,
    0x803e89d6, 0x5266c825, 0x2e4cc978, 0x9c10b36a, 0xc6150eba, 0x94e2ea78,
    0xa5fc3c53, 0x1e0a2df4, 0xf2f74ea7, 0x361d2b3d, 0x1939260f, 0x19c27960,
    0x5223a708, 0xf71312b6, 0xebadfe6e, 0xeac31f66, 0xe3bc4595, 0xa67bc883,
    0xb17f37d1, 0x018cff28, 0xc332ddef, 0xbe6c5aa5, 0x65582185, 0x68ab9802,
    0xeecea50f, 0xdb2f953b, 0x2aef7dad, 0x5b6e2f84, 0x1521b628, 0x29076170,
    0xecdd4775, 0x619f1510, 0x13cca830, 0xeb61bd96, 0x0334fe1e, 0xaa0363cf,
    0xb5735c90, 0x4c70a239, 0xd59e9e0b, 0xcbaade14, 0xeecc86bc, 0x60622ca7,
    0x9cab5cab, 0xb2f3846e, 0x648b1eaf, 0x19bdf0ca, 0xa02369b9, 0x655abb50,
    0x40685a32, 0x3c2ab4b3, 0x319ee9d5, 0xc021b8f7, 0x9b540b19, 0x875fa099,
    0x95f7997e, 0x623d7da8, 0xf837889a, 0x97e32d77, 0x11ed935f, 0x16681281,
    0x0e358829, 0xc7e61fd6, 0x96dedfa1, 0x7858ba99, 0x57f584a5, 0x1b227263,
    0x9b83c3ff, 0x1ac24696, 0xcdb30aeb, 0x532e3054, 0x8fd948e4, 0x6dbc3128,
    0x58ebf2ef, 0x34c6ffea, 0xfe28ed61, 0xee7c3c73, 0x5d4a14d9, 0xe864b7e3,
    0x42105d14, 0x203e13e0, 0x45eee2b6, 0xa3aaabea, 0xdb6c4f15, 0xfacb4fd0,
    0xc742f442, 0xef6abbb5, 0x654f3b1d, 0x41cd2105, 0xd81e799e, 0x86854dc7,
    0xe44b476a, 0x3d816250, 0xcf62a1f2, 0x5b8d2646, 0xfc8883a0, 0xc1c7b6a3,
    0x7f1524c3, 0x69cb7492, 0x47848a0b, 0x5692b285, 0x095bbf00, 0xad19489d,
    0x1462b174, 0x23820e00, 0x58428d2a, 0x0c55f5ea, 0x1dadf43e, 0x233f7061,
    0x3372f092, 0x8d937e41, 0xd65fecf1, 0x6c223bdb, 0x7cde3759, 0xcbee7460,
    0x4085f2a7, 0xce77326e, 0xa6078084, 0x19f8509e, 0xe8efd855, 0x61d99735,
    0xa969a7aa, 0xc50c06c2, 0x5a04abfc, 0x800bcadc, 0x9e447a2e, 0xc3453484,
    0xfdd56705, 0x0e1e9ec9, 0xdb73dbd3, 0x105588cd, 0x675fda79, 0xe3674340,
    0xc5c43465, 0x713e38d8, 0x3d28f89e, 0xf16dff20, 0x153e21e7, 0x8fb03d4a,
    0xe6e39f2b, 0xdb83adf7, 0xe93d5a68, 0x948140f7, 0xf64c261c, 0x94692934,
    0x411520f7, 0x7602d4f7, 0xbcf46b2e, 0xd4a20068, 0xd4082471, 0x3320f46a,
    0x43b7d4b7, 0x500061af, 0x1e39f62e, 0x97244546, 0x14214f74, 0xbf8b8840,
    0x4d95fc1d, 0x96b591af, 0x70f4ddd3, 0x66a02f45, 0xbfbc09ec, 0x03bd9785,
    0x7fac6dd0, 0x31cb8504, 0x96eb27b3, 0x55fd3941, 0xda2547e6, 0xabca0a9a,
    0x28507825, 0x530429f4, 0x0a2c86da, 0xe9b66dfb, 0x68dc1462, 0xd7486900,
    0x680ec0a4, 0x27a18dee, 0x4f3ffea2, 0xe887ad8c, 0xb58ce006, 0x7af4d6b6,
    0xaace1e7c, 0xd3375fec, 0xce78a399, 0x406b2a42, 0x20fe9e35, 0xd9f385b9,
    0xee39d7ab, 0x3b124e8b, 0x1dc9faf7, 0x4b6d1856, 0x26a36631, 0xeae397b2,
    0x3a6efa74, 0xdd5b4332, 0x6841e7f7, 0xca7820fb, 0xfb0af54e, 0xd8feb397,
    0x454056ac, 0xba489527, 0x55533a3a, 0x20838d87, 0xfe6ba9b7, 0xd096954b,
    0x55a867bc, 0xa1159a58, 0xcca92963, 0x99e1db33, 0xa62a4a56, 0x3f3125f9,
    0x5ef47e1c, 0x9029317c, 0xfdf8e802, 0x04272f70, 0x80bb155c, 0x05282ce3,
    0x95c11548, 0xe4c66d22, 0x48c1133f, 0xc70f86dc, 0x07f9c9ee, 0x41041f0f,
    0x404779a4, 0x5d886e17, 0x325f51eb, 0xd59bc0d1, 0xf2bcc18f, 0x41113564,
    0x257b7834, 0x602a9c60, 0xdff8e8a3, 0x1f636c1b, 0x0e12b4c2, 0x02e1329e,
    0xaf664fd1, 0xcad18115, 0x6b2395e0, 0x333e92e1, 0x3b240b62, 0xeebeb922,
    0x85b2a20e, 0xe6ba0d99, 0xde720c8c, 0x2da2f728, 0xd0127845, 0x95b794fd,
    0x647d0862, 0xe7ccf5f0, 0x5449a36f, 0x877d48fa, 0xc39dfd27, 0xf33e8d1e,
    0x0a476341, 0x992eff74, 0x3a6f6eab, 0xf4f8fd37, 0xa812dc60, 0xa1ebddf8,
    0x991be14c, 0xdb6e6b0d, 0xc67b5510, 0x6d672c37, 0x2765d43b, 0xdcd0e804,
    0xf1290dc7, 0xcc00ffa3, 0xb5390f92, 0x690fed0b, 0x667b9ffb, 0xcedb7d9c,
    0xa091cf0b, 0xd9155ea3, 0xbb132f88, 0x515bad24, 0x7b9479bf, 0x763bd6eb,
    0x37392eb3, 0xcc115979, 0x8026e297, 0xf42e312d, 0x6842ada7, 0xc66a2b3b,
    0x12754ccc, 0x782ef11c, 0x6a124237, 0xb79251e7, 0x06a1bbe6, 0x4bfb6350,
    0x1a6b1018, 0x11caedfa, 0x3d25bdd8, 0xe2e1c3c9, 0x44421659, 0x0a121386,
    0xd90cec6e, 0xd5abea2a, 0x64af674e, 0xda86a85f, 0xbebfe988, 0x64e4c3fe,
    0x9dbc8057, 0xf0f7c086, 0x60787bf8, 0x6003604d, 0xd1fd8346, 0xf6381fb0,
    0x7745ae04, 0xd736fccc, 0x83426b33, 0xf01eab71, 0xb0804187, 0x3c005e5f,
    0x77a057be, 0xbde8ae24, 0x55464299, 0xbf582e61, 0x4e58f48f, 0xf2ddfda2,
    0xf474ef38, 0x8789bdc2, 0x5366f9c3, 0xc8b38e74, 0xb475f255, 0x46fcd9b9,
    0x7aeb2661, 0x8b1ddf84, 0x846a0e79, 0x915f95e2, 0x466e598e, 0x20b45770,
    0x8cd55591, 0xc902de4c, 0xb90bace1, 0xbb8205d0, 0x11a86248, 0x7574a99e,
    0xb77f19b6, 0xe0a9dc09, 0x662d09a1, 0xc4324633, 0xe85a1f02, 0x09f0be8c,
    0x4a99a025, 0x1d6efe10, 0x1ab93d1d, 0x0ba5a4df, 0xa186f20f, 0x2868f169,
    0xdcb7da83, 0x573906fe, 0xa1e2ce9b, 0x4fcd7f52, 0x50115e01, 0xa70683fa,
    0xa002b5c4, 0x0de6d027, 0x9af88c27, 0x773f8641, 0xc3604c06, 0x61a806b5,
    0xf0177a28, 0xc0f586e0, 0x006058aa, 0x30dc7d62, 0x11e69ed7, 0x2338ea63,
    0x53c2dd94, 0xc2c21634, 0xbbcbee56, 0x90bcb6de, 0xebfc7da1, 0xce591d76,
    0x6f05e409, 0x4b7c0188, 0x39720a3d, 0x7c927c24, 0x86e3725f, 0x724d9db9,
    0x1ac15bb4, 0xd39eb8fc, 0xed545578, 0x08fca5b5, 0xd83d7cd3, 0x4dad0fc4,
    0x1e50ef5e, 0xb161e6f8, 0xa28514d9, 0x6c51133c, 0x6fd5c7e7, 0x56e14ec4,
    0x362abfce, 0xddc6c837, 0xd79a3234, 0x92638212, 0x670efa8e, 0x406000e0,
    0x3a39ce37, 0xd3faf5cf, 0xabc27737, 0x5ac52d1b, 0x5cb0679e, 0x4fa33742,
    0xd3822740, 0x99bc9bbe, 0xd5118e9d, 0xbf0f7315, 0xd62d1c7e, 0xc700c47b,
    0xb78c1b6b, 0x21a19045, 0xb26eb1be, 0x6a366eb4, 0x5748ab2f, 0xbc946e79,
    0xc6a376d2, 0x6549c2c8, 0x530ff8ee, 0x468dde7d, 0xd5730a1d, 0x4cd04dc6,
    0x2939bbdb, 0xa9ba4650, 0xac9526e8, 0xbe5ee304, 0xa1fad5f0, 0x6a2d519a,
    0x63ef8ce2, 0x9a86ee22, 0xc089c2b8, 0x43242ef6, 0xa51e03aa, 0x9cf2d0a4,
    0x83c061ba, 0x9be96a4d, 0x8fe51550, 0xba645bd6, 0x2826a2f9, 0xa73a3ae1,
    0x4ba99586, 0xef5562e9, 0xc72fefd3, 0xf752f7da, 0x3f046f69, 0x77fa0a59,
    0x80e4a915, 0x87b08601, 0x9b09e6ad, 0x3b3ee593, 0xe990fd5a, 0x9e34d797,
    0x2cf0b7d9, 0x022b8b51, 0x96d5ac3a, 0x017da67d, 0xd1cf3ed6, 0x7c7d2d28,
    0x1f9f25cf, 0xadf2b89b, 0x5ad6b472, 0x5a88f54c, 0xe029ac71, 0xe019a5e6,
    0x47b0acfd, 0xed93fa9b, 0xe8d3c48d, 0x283b57cc, 0xf8d56629, 0x79132e28,
    0x785f0191, 0xed756055, 0xf7960e44, 0xe3d35e8c, 0x15056dd4, 0x88f46dba,
    0x03a16125, 0x0564f0bd, 0xc3eb9e15, 0x3c9057a2, 0x97271aec, 0xa93a072a,
    0x1b3f6d9b, 0x1e6321f5, 0xf59c66fb, 0x26dcf319, 0x7533d928, 0xb155fdf5,
    0x03563482, 0x8aba3cbb, 0x28517711, 0xc20ad9f8, 0xabcc5167, 0xccad925f,
    0x4de81751, 0x3830dc8e, 0x379d5862, 0x9320f991, 0xea7a90c2, 0xfb3e7bce,
    0x5121ce64, 0x774fbe32, 0xa8b6e37e, 0xc3293d46, 0x48de5369, 0x6413e680,
    0xa2ae0810, 0xdd6db224, 0x69852dfd, 0x09072166, 0xb39a460a, 0x6445c0dd,
    0x586cdecf, 0x1c20c8ae, 0x5bbef7dd, 0x1b588d40, 0xccd2017f, 0x6bb4e3bb,
    0xdda26a7e, 0x3a59ff45, 0x3e350a44, 0xbcb4cdd5, 0x72eacea8, 0xfa6484bb,
    0x8d6612ae, 0xbf3c6f47, 0xd29be463, 0x542f5d9e, 0xaec2771b, 0xf64e6370,
    0x740e0d8d, 0xe75b1357, 0xf8721671, 0xaf537d5d, 0x4040cb08, 0x4eb4e2cc,
    0x34d2466a, 0x0115af84, 0xe1b00428, 0x95983a1d, 0x06b89fb4, 0xce6ea048,
    0x6f3f3b82, 0x3520ab82, 0x011a1d4b, 0x277227f8, 0x611560b1, 0xe7933fdc,
    0xbb3a792b, 0x344525bd, 0xa08839e1, 0x51ce794b, 0x2f32c9b7, 0xa01fbac9,
    0xe01cc87e, 0xbcc7d1f6, 0xcf0111c3, 0xa1e8aac7, 0x1a908749, 0xd44fbd9a,
    0xd0dadecb, 0xd50ada38, 0x0339c32a, 0xc6913667, 0x8df9317c, 0xe0b12b4f,
    0xf79e59b7, 0x43f5bb3a, 0xf2d519ff, 0x27d9459c, 0xbf97222c, 0x15e6fc2a,
    0x0f91fc71, 0x9b941525, 0xfae59361, 0xceb69ceb, 0xc2a86459, 0x12baa8d1,
    0xb6c1075e, 0xe3056a0c, 0x10d25065, 0xcb03a442, 0xe0ec6e0e, 0x1698db3b,
    0x4c98a0be, 0x3278e964, 0x9f1f9532, 0xe0d392df, 0xd3a0342b, 0x8971f21e,
    0x1b0a7441, 0x4ba3348c, 0xc5be7120, 0xc37632d8, 0xdf359f8d, 0x9b992f2e,
    0xe60b6f47, 0x0fe3f11d, 0xe54cda54, 0x1edad891, 0xce6279cf, 0xcd3e7e6f,
    0x1618b166, 0xfd2c1d05, 0x848fd2c5, 0xf6fb2299, 0xf523f357, 0xa6327623,
    0x93a83531, 0x56cccd02, 0xacf08162, 0x5a75ebb5, 0x6e163697, 0x88d273cc,
    0xde966292, 0x81b949d0, 0x4c50901b, 0x71c65614, 0xe6c6c7bd, 0x327a140a,
    0x45e1d006, 0xc3f27b9a, 0xc9aa53fd, 0x62a80f00, 0xbb25bfe2, 0x35bdd2f6,
    0x71126905, 0xb2040222, 0xb6cbcf7c, 0xcd769c2b, 0x53113ec0, 0x1640e3d3,
    0x38abbd60, 0x2547adf0, 0xba38209c, 0xf746ce76, 0x77afa1c5, 0x20756060,
    0x85cbfe4e, 0x8ae88dd8, 0x7aaaf9b0, 0x4cf9aa7e, 0x1948c25c, 0x02fb8a8c,
    0x01c36ae4, 0xd6ebe1f9, 0x90d4f869, 0xa65cdea0, 0x3f09252d, 0xc208e69f,
    0xb74e6132, 0xce77e25b, 0x578fdfe3, 0x3ac372e6
  ]"

definition bfF :: "u32 list \<Rightarrow> u32 \<Rightarrow> u32" where
  "bfF st x =
     ((st ! (18 + unat (drop_bit 24 x)) + st ! (274 + unat (drop_bit 16 x AND 0xff)))
        XOR st ! (530 + unat (drop_bit 8 x AND 0xff)))
      + st ! (786 + unat (x AND 0xff))"

definition bfRound :: "u32 list \<Rightarrow> nat \<Rightarrow> u32 \<times> u32 \<Rightarrow> u32 \<times> u32" where
  "bfRound st n lr = (case lr of (a, b) \<Rightarrow> (b XOR bfF st a XOR st ! n, a))"

definition encipher :: "u32 list \<Rightarrow> u32 \<times> u32 \<Rightarrow> u32 \<times> u32" where
  "encipher st lr =
     (case lr of (xl, xr) \<Rightarrow>
        (case fold (bfRound st) [1..<17] (xl XOR st ! 0, xr) of
           (a, b) \<Rightarrow> (b XOR st ! 17, a)))"

text \<open>
  The 32-bit words of a byte string read cyclically, most significant byte first
  (\<open>Blowfish_stream2word\<close>).
\<close>

definition streamWord :: "byte list \<Rightarrow> nat \<Rightarrow> u32" where
  "streamWord bs k =
     foldl (\<lambda>acc i. push_bit 8 acc OR ucast (bs ! ((4 * k + i) mod length bs))) 0 [0..<4]"

definition expandStateStep :: "byte list \<Rightarrow> nat \<Rightarrow> u32 list \<times> u32 \<times> u32 \<Rightarrow> u32 list \<times> u32 \<times> u32" where
  "expandStateStep data i s =
     (case s of (st, l, r) \<Rightarrow>
        (case encipher st (l XOR streamWord data (2 * i), r XOR streamWord data (2 * i + 1)) of
           (l', r') \<Rightarrow> (st[2 * i := l', 2 * i + 1 := r'], l', r')))"

text \<open>
  \<open>Blowfish_expandstate\<close>: the key is mixed into the subkeys, then every pair of words of the
  state is replaced by the encryption of the running block, into which the salt is mixed.
  \<open>Blowfish_expand0state\<close> is the same without a salt, that is with a salt of zeros.
\<close>

definition expandState :: "byte list \<Rightarrow> byte list \<Rightarrow> u32 list \<Rightarrow> u32 list" where
  "expandState data key st =
     fst (fold (expandStateStep data) [0..<521]
       (map (\<lambda>i. if i < 18 then st ! i XOR streamWord key i else st ! i) [0..<length st], 0, 0))"

definition expand0State :: "byte list \<Rightarrow> u32 list \<Rightarrow> u32 list" where
  "expand0State key st = expandState (replicate 16 0) key st"

definition eksBlowfish :: "nat \<Rightarrow> byte list \<Rightarrow> byte list \<Rightarrow> u32 list" where
  "eksBlowfish cost salt key =
     ((\<lambda>st. expand0State salt (expand0State key st)) ^^ (2 ^ cost)) (expandState salt key piWords)"

text \<open>
  The digest: the text \<open>OrpheanBeholderScryDoubt\<close>, three blocks, encrypted 64 times; its
  last byte is not part of the output.
\<close>

definition magic :: "byte list" where
  "magic = map (\<lambda>c. of_nat (of_char c)) ''OrpheanBeholderScryDoubt''"

definition wordBytes :: "u32 \<Rightarrow> byte list" where
  "wordBytes w = map (\<lambda>i. ucast (drop_bit (8 * (3 - i)) w)) [0..<4]"

definition bcryptDigest :: "nat \<Rightarrow> byte list \<Rightarrow> byte list \<Rightarrow> byte list" where
  "bcryptDigest cost salt key =
     (let st = eksBlowfish cost salt key;
          blocks = map (\<lambda>i. (streamWord magic (2 * i), streamWord magic (2 * i + 1))) [0..<3];
          out = ((map (encipher st)) ^^ 64) blocks
      in take 23 (concat (map (\<lambda>(l, r). wordBytes l @ wordBytes r) out)))"

text \<open>
  The key.  The password reaches the library as the bytes of its UTF-8 form, a zero byte after
  them.  How many of these bytes the cipher reads, cyclically, depends on the minor version of
  the hash: for \<open>b\<close> the password, of which at most 72 bytes count, and one byte more; for
  \<open>a\<close> the password and the zero byte, for no minor version the password alone, the count
  being kept in eight bits in both cases.  With a count of zero the cipher reads the first byte
  again and again.
\<close>

definition bcryptKey :: "byte \<Rightarrow> byte list \<Rightarrow> byte list" where
  "bcryptKey minor pw =
     (let n = (if minor \<le> 97 then (length pw + (if 97 \<le> minor then 1 else 0)) mod 256
               else min (length pw) 72 + 1)
      in if n = 0 then [hd (pw @ [0])] else take n (pw @ [0]))"

text \<open>The base-64 encoding of bcrypt: its own alphabet, no padding.\<close>

definition b64char :: "nat \<Rightarrow> byte" where
  "b64char v =
     (if v = 0 then 46 else if v = 1 then 47
      else if v < 28 then of_nat (63 + v)
      else if v < 54 then of_nat (69 + v)
      else of_nat (v - 6))"

definition b64val :: "byte \<Rightarrow> nat option" where
  "b64val c = (let n = unat c in
     if n = 46 then Some 0 else if n = 47 then Some 1
     else if 65 \<le> n \<and> n \<le> 90 then Some (n - 63)
     else if 97 \<le> n \<and> n \<le> 122 then Some (n - 69)
     else if 48 \<le> n \<and> n \<le> 57 then Some (n + 6)
     else None)"

fun b64Encode :: "byte list \<Rightarrow> byte list" where
  "b64Encode (a # b # c # bs) =
     b64char (unat a div 4) # b64char (unat a mod 4 * 16 + unat b div 16)
       # b64char (unat b mod 16 * 4 + unat c div 64) # b64char (unat c mod 64) # b64Encode bs"
| "b64Encode [a, b] =
     [b64char (unat a div 4), b64char (unat a mod 4 * 16 + unat b div 16), b64char (unat b mod 16 * 4)]"
| "b64Encode [a] = [b64char (unat a div 4), b64char (unat a mod 4 * 16)]"
| "b64Encode [] = []"

fun b64Bytes :: "nat list \<Rightarrow> byte list" where
  "b64Bytes (p # q # r # s # vs) =
     of_nat (p * 4 + q div 16) # of_nat (q mod 16 * 16 + r div 4) # of_nat (r mod 4 * 64 + s) # b64Bytes vs"
| "b64Bytes [p, q, r] = [of_nat (p * 4 + q div 16), of_nat (q mod 16 * 16 + r div 4)]"
| "b64Bytes [p, q] = [of_nat (p * 4 + q div 16)]"
| "b64Bytes vs = []"

definition b64Decode :: "byte list \<Rightarrow> byte list option" where
  "b64Decode s = (if list_all (\<lambda>c. b64val c \<noteq> None) s then Some (b64Bytes (map (\<lambda>c. the (b64val c)) s)) else None)"

text \<open>
  The hash string, a C string: \<open>$2\<close>, the minor version if there is one, \<open>$\<close>, the cost in
  two digits, \<open>$\<close>, and the salt and the digest in base 64.
\<close>

definition digit :: "nat \<Rightarrow> byte" where
  "digit d = of_nat (48 + d)"

definition bcryptString :: "byte \<Rightarrow> nat \<Rightarrow> byte list \<Rightarrow> byte list \<Rightarrow> byte list" where
  "bcryptString minor logr csalt key =
     [36, 50] @ (if minor = 0 then [] else [minor]) @ [36, digit (logr div 10), digit (logr mod 10), 36]
       @ b64Encode csalt @ b64Encode (bcryptDigest logr csalt key)"

text \<open>
  Strings cross between JavaScript and the library in UTF-8.  The library reads a string it is
  given up to its first zero byte, and reads a zero byte wherever it looks past that.
\<close>

definition cString :: "byte list \<Rightarrow> byte list" where
  "cString bs = takeWhile (\<lambda>b. b \<noteq> 0) bs"

definition charAt :: "byte list \<Rightarrow> nat \<Rightarrow> byte" where
  "charAt s i = (if i < length s then s ! i else 0)"

text \<open>
  \<open>atoi\<close>: white space, a sign, digits.  It is applied to the two characters before a \<open>$\<close>,
  so the number has two digits at most.
\<close>

definition isSpace :: "byte \<Rightarrow> bool" where
  "isSpace c = (c = 32 \<or> (9 \<le> c \<and> c \<le> 13))"

definition isDigit :: "byte \<Rightarrow> bool" where
  "isDigit c = (48 \<le> c \<and> c \<le> 57)"

fun atoiDigits :: "int \<Rightarrow> byte list \<Rightarrow> int" where
  "atoiDigits acc [] = acc"
| "atoiDigits acc (c # cs) = (if isDigit c then atoiDigits (10 * acc + (uint c - 48)) cs else acc)"

definition atoi :: "byte list \<Rightarrow> int" where
  "atoi s =
     (case dropWhile isSpace s of
        [] \<Rightarrow> 0
      | c # cs \<Rightarrow>
          if c = 45 then - atoiDigits 0 cs
          else if c = 43 then atoiDigits 0 cs
          else atoiDigits 0 (c # cs))"

text \<open>
  The salt of a hash string is decoded from its first 22 characters.  When one of them is not
  of the alphabet the library stops decoding and leaves the rest of the 16 bytes as they happen
  to be in memory; the hash string it then computes has 22 characters of the alphabet in that
  place, so it differs from the string given.  Here such a string has no salt.
\<close>

definition decodeSalt :: "byte list \<Rightarrow> byte list option" where
  "decodeSalt s = b64Decode (take 22 s)"

text \<open>
  The check both \<open>bcrypt.compare\<close> and \<open>bcrypt.hash\<close> make of a hash string or a salt string
  before they use it (\<open>ValidateSalt\<close>), with what is read from the string on the way: \<open>$\<close>; a
  version character not above \<open>2\<close>, as a signed character; the minor version \<open>a\<close> or \<open>b\<close>,
  or \<open>$\<close> at once for no minor version; two characters, which \<open>atoi\<close> reads as the cost, and
  \<open>$\<close>; a cost from 0 to 31 of which 2 to that power, computed as a signed number of 32 bits,
  is not below 16, that is a cost from 4 to 30; at least 22 characters of salt.
\<close>

definition parseSalt :: "byte list \<Rightarrow> (byte \<times> nat \<times> byte list) option" where
  "parseSalt s =
     (if charAt s 0 \<noteq> 36 then None
      else if 50 < sint (charAt s 1) then None
      else if charAt s 2 \<noteq> 36 \<and> charAt s 2 \<noteq> 97 \<and> charAt s 2 \<noteq> 98 then None
      else
        (let minor = (if charAt s 2 = 36 then 0 else charAt s 2);
             p = (if minor = 0 then 3 else 4);
             n = atoi (drop p s)
         in if charAt s (p + 2) \<noteq> 36 then None
            else if 31 < n \<or> n < 0 then None
            else if signed_take_bit 31 (2 ^ nat n :: int) < 16 then None
            else if length (drop (p + 3) s) * 3 div 4 < 16 then None
            else map_option (\<lambda>csalt. (minor, nat n, csalt)) (decodeSalt (drop (p + 3) s))))"

text \<open>
  The native function behind \<open>bcrypt.hash\<close>, given the password and a salt string: a string
  that fails the check is an error; otherwise the hash string is computed from the password and
  from the version, the cost and the salt read from the salt string.
\<close>

definition bcryptEncrypt :: "jsstring \<Rightarrow> jsstring \<Rightarrow> error + jsstring" where
  "bcryptEncrypt data salt =
     (case parseSalt (cString (utf8Encode salt)) of
        None \<Rightarrow> Inl BcryptError
      | Some (minor, logr, csalt) \<Rightarrow>
          Inr (utf8Decode (bcryptString minor logr csalt (bcryptKey minor (utf8Encode data)))))"

text \<open>
  \<open>bcrypt.compare\<close> on two strings: when the hash string passes the check, the hash is
  computed again from the password and from the version, the cost and the salt the hash string
  carries, and the two C strings are compared; when it does not, the answer is \<open>false\<close>.
  Nothing is raised.
\<close>

definition bcryptCompare :: "jsstring \<Rightarrow> jsstring \<Rightarrow> bool" where
  "bcryptCompare data h =
     (let encrypted = cString (utf8Encode h) in
      case parseSalt encrypted of
        None \<Rightarrow> False
      | Some (minor, logr, csalt) \<Rightarrow>
          bcryptString minor logr csalt (bcryptKey minor (utf8Encode data)) = encrypted)"

text \<open>
  \<open>bcrypt.hash(data, rounds)\<close> with a number of rounds: a number that is falsy (0 or
  \<open>NaN\<close>) stands for 10; the number is then read as an 8-bit value and brought into the range
  from 4 to 31; the salt string is made of the version \<open>2b\<close>, that cost and 16 bytes of
  \<open>crypto.randomBytes\<close>, and handed to the native function with the password.
\<close>

definition genSaltRounds :: "number \<Rightarrow> nat" where
  "genSaltRounds rounds =
     (case rounds of
        NaN \<Rightarrow> 10
      | Integer n \<Rightarrow>
          if n = 0 then 10
          else (let r = nat (n mod 256) in if r < 4 then 4 else if 31 < r then 31 else r))"

definition genSalt :: "byte \<Rightarrow> nat \<Rightarrow> byte list \<Rightarrow> jsstring" where
  "genSalt minor logr seed =
     utf8Decode ([36, 50, minor, 36, digit (logr div 10), digit (logr mod 10), 36] @ b64Encode seed)"

definition bcryptHash :: "jsstring \<Rightarrow> number \<Rightarrow> rng \<Rightarrow> (error + jsstring) \<times> rng" where
  "bcryptHash data rounds g =
     (case randomBytes 16 g of (seed, g') \<Rightarrow>
        (bcryptEncrypt data (genSalt 98 (genSaltRounds rounds) seed), g'))"

section \<open>\<open>src/common/security/hash.security.js\<close>\<close>

text \<open>
  \<open>SALT_ROUND\<close> is a value of the configuration module, which is not among the sources; the
  parameter \<open>saltRound\<close> is the number \<open>Number(SALT_ROUND)\<close>.  Both functions of the package
  refuse arguments that are not strings.
\<close>

definition hashPassword :: "number \<Rightarrow> jsval \<Rightarrow> rng \<Rightarrow> (error + jsstring) \<times> rng" where
  "hashPassword saltRound password g =
     (case password of
        JStr p \<Rightarrow> bcryptHash p saltRound g
      | _ \<Rightarrow> (Inl BcryptError, g))"

definition comparePassword :: "jsval \<Rightarrow> jsval \<Rightarrow> error + bool" where
  "comparePassword password hashedPassword =
     (case (password, hashedPassword) of
        (JStr p, JStr h) \<Rightarrow> Inr (bcryptCompare p h)
      | _ \<Rightarrow> Inl BcryptError)"

section \<open>\<open>src/db\<close>: the user schema and the repository functions\<close>

text \<open>
  The setter and the getter of the path \<open>phone\<close> of the user schema.  The setter returns a
  falsy value as it is and encrypts any other; the getter decrypts whatever is stored.
\<close>

definition phone_set :: "jsstring option \<Rightarrow> jsval \<Rightarrow> rng \<Rightarrow> (error + jsval) \<times> rng" where
  "phone_set securityKey v g =
     (if \<not> truthy v then (Inr v, g)
      else (case encryptData securityKey v g of (r, g') \<Rightarrow> (map_sum id JStr r, g')))"

definition phone_get :: "jsstring option \<Rightarrow> jsval \<Rightarrow> error + jsval" where
  "phone_get securityKey v = map_sum id JStr (decryptData securityKey v)"

text \<open>
  A document (and a request body, and a plain object) is a map from property names to values;
  reading a property that is not there gives \<open>undefined\<close>.  The collection of users is the
  list of its documents.
\<close>

type_synonym document = "string \<rightharpoonup> jsval"

definition getProp :: "document \<Rightarrow> string \<Rightarrow> jsval" where
  "getProp d f = (case d f of None \<Rightarrow> JUndefined | Some v \<Rightarrow> v)"

record config =
  securityKey :: "jsstring option"
  saltRound :: number

text \<open>
  What Mongoose does with the value given for a path of type \<open>String\<close>.  The value is cast:
  \<open>undefined\<close> and \<open>null\<close> stay, a string stays, a boolean and a number become their
  \<open>toString()\<close> (every integer is printed in full here, where JavaScript prints an integer
  of 22 digits or more with an exponent).  With \<open>trim: true\<close> the white space and the line
  terminators at both ends of the string are removed.
\<close>

fun decimal :: "nat \<Rightarrow> jsstring" where
  "decimal n = (if n < 10 then [of_nat (48 + n)] else decimal (n div 10) @ [of_nat (48 + n mod 10)])"

declare decimal.simps [simp del]

definition numberToString :: "number \<Rightarrow> jsstring" where
  "numberToString n =
     (case n of
        NaN \<Rightarrow> js ''NaN''
      | Integer i \<Rightarrow> if i < 0 then 45 # decimal (nat (- i)) else decimal (nat i))"

definition castString :: "jsval \<Rightarrow> jsval" where
  "castString v =
     (case v of
        JBool b \<Rightarrow> JStr (js (if b then ''true'' else ''false''))
      | JNum n \<Rightarrow> JStr (numberToString n)
      | _ \<Rightarrow> v)"

definition isWhite :: "16 word \<Rightarrow> bool" where
  "isWhite c = (let n = unat c in
     (9 \<le> n \<and> n \<le> 13) \<or> n = 0x20 \<or> n = 0xA0 \<or> n = 0x1680 \<or> (0x2000 \<le> n \<and> n \<le> 0x200A)
       \<or> n = 0x2028 \<or> n = 0x2029 \<or> n = 0x202F \<or> n = 0x205F \<or> n = 0x3000 \<or> n = 0xFEFF)"

definition trim :: "jsstring \<Rightarrow> jsstring" where
  "trim s = rev (dropWhile isWhite (rev (dropWhile isWhite s)))"

definition castTrimmed :: "jsval \<Rightarrow> jsval" where
  "castTrimmed v = (case castString v of JStr s \<Rightarrow> JStr (trim s) | w \<Rightarrow> w)"

text \<open>
  The validators of the schema.  \<open>required\<close> on a string path asks for a string that is not
  empty; the names must besides have from 2 to 25 code units.
\<close>

definition required :: "jsval \<Rightarrow> bool" where
  "required v = (case v of JStr s \<Rightarrow> s \<noteq> [] | _ \<Rightarrow> False)"

definition validName :: "jsval \<Rightarrow> bool" where
  "validName v = (case v of JStr s \<Rightarrow> s \<noteq> [] \<and> 2 \<le> length s \<and> length s \<le> 25 | _ \<Rightarrow> False)"

text \<open>A path that is given \<open>undefined\<close> is not set.\<close>

definition setPath :: "string \<Rightarrow> jsval \<Rightarrow> document \<Rightarrow> document" where
  "setPath f v d = (if v = JUndefined then d else d(f \<mapsto> v))"

text \<open>
  \<open>findOne(UserModel, { email })\<close>: the first document with this e-mail address.  The value
  asked for is cast as the path is; \<open>undefined\<close> and \<open>null\<close> ask for the documents that have
  no e-mail address.
\<close>

definition findOne :: "document list \<Rightarrow> jsval \<Rightarrow> document option" where
  "findOne db email =
     (let q = castString email in
      find (\<lambda>d. if q = JUndefined \<or> q = JNull
                 then getProp d ''email'' = JUndefined \<or> getProp d ''email'' = JNull
                 else getProp d ''email'' = q) db)"

text \<open>
  \<open>create(UserModel, data)\<close>, that is \<open>UserModel.create([data])\<close>.  The document is built
  from the properties of \<open>data\<close> that are paths of the schema (\<open>strict\<close>): the setter of
  \<open>phone\<close> runs on the value given, and what it returns is cast; the names are cast and
  trimmed; \<open>email\<close> and \<open>password\<close> are cast.  An error thrown by the setter does not leave
  the constructor: Mongoose keeps it as the error of the path.  The document is then validated,
  and \<open>create\<close> throws a \<open>ValidationError\<close> when a path has an error or a validator fails.
  It is saved unless the collection has a document with the same \<open>email\<close> (the unique index),
  and the answer is the array of the documents created.

  The model follows the five paths the service deals with.  \<open>data\<close> is taken to have no
  property for another path of the schema (\<open>gender\<close>, \<open>provider\<close>, \<open>profilePicture\<close>,
  \<open>coverProfilePictures\<close>, \<open>confirmEmail\<close>, \<open>chageCredentialTime\<close>, the virtual
  \<open>userName\<close>), and what Mongoose adds to a document (the identifier, the defaults of
  \<open>gender\<close> and \<open>provider\<close>, the timestamps, the version) is left out.
\<close>

definition create ::
  "config \<Rightarrow> document list \<Rightarrow> document \<Rightarrow> rng \<Rightarrow> (error + document list) \<times> document list \<times> rng" where
  "create cfg db data g =
     (let firstName = castTrimmed (getProp data ''firstName'');
          lastName = castTrimmed (getProp data ''lastName'');
          email = castString (getProp data ''email'');
          password = castString (getProp data ''password'')
      in case phone_set (securityKey cfg) (getProp data ''phone'') g of
           (Inl e, g') \<Rightarrow> (Inl ValidationError, db, g')
         | (Inr v, g') \<Rightarrow>
             if \<not> (validName firstName \<and> validName lastName \<and> required email \<and> required password)
             then (Inl ValidationError, db, g')
             else if find (\<lambda>d. getProp d ''email'' = email) db \<noteq> None
             then (Inl DuplicateKeyError, db, g')
             else
               (let doc = setPath ''phone'' (castString v)
                     (setPath ''password'' password
                       (setPath ''email'' email
                         (setPath ''lastName'' lastName
                           (setPath ''firstName'' firstName Map.empty))))
                in (Inr [doc], db @ [doc], g')))"

text \<open>
  \<open>user.toObject()\<close>: the schema asks for the getters to be applied, so the getter of
  \<open>phone\<close> runs on what the document holds at that path, \<open>undefined\<close> when it holds nothing.
\<close>

definition toObject :: "config \<Rightarrow> document \<Rightarrow> error + document" where
  "toObject cfg d = bindE (phone_get (securityKey cfg) (getProp d ''phone'')) (\<lambda>v. Inr (d(''phone'' \<mapsto> v)))"

section \<open>\<open>src/modules/user/user.service.js\<close>\<close>

definition throwError :: "string \<Rightarrow> nat \<Rightarrow> error" where
  "throwError errorMessage statusCode = ApiError (js errorMessage) statusCode"

definition signup ::
  "config \<Rightarrow> document list \<Rightarrow> document \<Rightarrow> rng \<Rightarrow> (error + document list) \<times> document list \<times> rng" where
  "signup cfg db inputs g =
     (case findOne db (getProp inputs ''email'') of
        Some checkUserExist \<Rightarrow> (Inl (throwError ''email already exist'' 409), db, g)
      | None \<Rightarrow>
          (case hashPassword (saltRound cfg) (getProp inputs ''password'') g of
             (Inl e, g') \<Rightarrow> (Inl e, db, g')
           | (Inr hashedPassword, g') \<Rightarrow>
               create cfg db (inputs(''password'' \<mapsto> JStr hashedPassword)) g'))"

definition login :: "config \<Rightarrow> document list \<Rightarrow> document \<Rightarrow> error + document" where
  "login cfg db inputs =
     (case findOne db (getProp inputs ''email'') of
        None \<Rightarrow> Inl (throwError ''Invalid email or password'' 404)
      | Some user \<Rightarrow>
          bindE (comparePassword (getProp inputs ''password'') (getProp user ''password'')) (\<lambda>isPasswordValid.
            if \<not> isPasswordValid then Inl (throwError ''Invalid email or password'' 401)
            else bindE (toObject cfg user) (\<lambda>userObject.
              Inr (userObject(''password'' := None)))))"

section \<open>A concrete scenario\<close>

text \<open>
  The scenario of the specification's testable properties: the key \<open>00..01\<close> of 32 bytes and
  the plaintext \<open>+15551234567\<close>; the random source gives the bytes 0, 1, 2, ...
\<close>

definition exampleKey :: jsstring where
  "exampleKey = js ''0000000000000000000000000000000000000000000000000000000000000001''"

definition examplePhone :: jsstring where
  "examplePhone = js ''+15551234567''"

definition exampleRng :: rng where
  "exampleRng = (\<lambda>i. of_nat i)"

text \<open>A random source that gives the same bytes at every call: zeros.\<close>

definition zeroRng :: rng where
  "zeroRng = (\<lambda>i. 0)"

text \<open>A string of hex digits, of either case.\<close>

definition hexString :: "jsstring \<Rightarrow> bool" where
  "hexString s = list_all (\<lambda>c. unhex c \<noteq> None) s"

text \<open>The encoding \<open>encryptData\<close> returns in the scenario.\<close>

definition exampleEncoded :: jsstring where
  "exampleEncoded = projr (fst (encryptData (Some exampleKey) (JStr examplePhone) exampleRng))"

text \<open>A configuration and a request body for \<open>signup\<close>.\<close>

definition exampleConfig :: config where
  "exampleConfig = \<lparr>securityKey = Some exampleKey, saltRound = Integer 10\<rparr>"

definition exampleInputs :: document where
  "exampleInputs = [''firstName'' \<mapsto> JStr (js ''Mina''), ''lastName'' \<mapsto> JStr (js ''Nasr''),
     ''email'' \<mapsto> JStr (js ''mina@example.com''), ''password'' \<mapsto> JStr (js ''secret''),
     ''phone'' \<mapsto> JStr examplePhone]"

text \<open>The document \<open>signup\<close> creates and returns for this request, in an empty collection.\<close>

definition exampleUser :: document where
  "exampleUser = hd (projr (fst (signup exampleConfig [] exampleInputs exampleRng)))"

section \<open>The configuration\<close>

text \<open>
  Modelled from the spec: the loading of the configuration, \<open>config/config.service.js\<close>, which
  is not among the sources.  The specification has two inputs, read once when the process
  starts: \<open>ENCRYPTION_KEY\<close>, 64 hex characters that are the 32 bytes of the key, and
  \<open>HASH_COST_FACTOR\<close>, a positive integer, here in decimal digits.  When one of them is absent
  or malformed the configuration fails to load with a \<open>ConfigurationError\<close> and nothing
  starts; otherwise the key and the cost are the values \<open>securityKey\<close> and \<open>SALT_ROUND\<close>
  the functions of the program use.
\<close>

record environment =
  ENCRYPTION_KEY :: "jsstring option"
  HASH_COST_FACTOR :: "jsstring option"

definition decimalValue :: "jsstring \<Rightarrow> int" where
  "decimalValue s = foldl (\<lambda>a c. 10 * a + (int (unat c) - 48)) 0 s"

definition positiveInteger :: "jsstring \<Rightarrow> bool" where
  "positiveInteger s =
     (s \<noteq> [] \<and> list_all (\<lambda>c. 48 \<le> unat c \<and> unat c \<le> 57) s \<and> 0 < decimalValue s)"

definition loadConfig :: "environment \<Rightarrow> error + config" where
  "loadConfig env =
     (case (ENCRYPTION_KEY env, HASH_COST_FACTOR env) of
        (Some k, Some c) \<Rightarrow>
          if length k = 64 \<and> hexString k \<and> positiveInteger c
          then Inr \<lparr>securityKey = Some k, saltRound = Integer (decimalValue c)\<rparr>
          else Inl ConfigurationError
      | _ \<Rightarrow> Inl ConfigurationError)"

section \<open>Facts about the encodings\<close>

lemma unat_u16: "n < 65536 \<Longrightarrow> unat (of_nat n :: 16 word) = n"
  by (simp add: unat_of_nat)

lemma unat_u8: "n < 256 \<Longrightarrow> unat (of_nat n :: byte) = n"
  by (simp add: unat_of_nat)

lemma unat_byte_less: "unat (b :: byte) < 256"
  using unsigned_less [of b, where ?'a = nat] by simp

lemma unat_unit_less: "unat (c :: 16 word) < 65536"
  using unsigned_less [of c, where ?'a = nat] by simp

lemma mod_plus: "q < m \<Longrightarrow> (k * m + q) mod m = (q::nat)"
  by simp

lemma bindE_Inr [simp]: "bindE (Inr x) f = f x"
  by (simp add: bindE_def)

lemma bindE_Inl [simp]: "bindE (Inl e) f = Inl e"
  by (simp add: bindE_def)

lemma unat_hexDigit: "n < 16 \<Longrightarrow> unat (hexDigit n) = (if n < 10 then 48 + n else 87 + n)"
  unfolding hexDigit_def by (simp only: unat_u16 split: if_split) (simp add: unat_u16 del: of_nat_add)

lemma unhex_hexDigit: "n < 16 \<Longrightarrow> unhex (hexDigit n) = Some n"
  unfolding unhex_def Let_def by (simp add: unat_hexDigit)

lemma hexDigit_not_colon: "n < 16 \<Longrightarrow> hexDigit n \<noteq> colon"
proof
  assume n: "n < 16" and "hexDigit n = colon"
  then have "unat (hexDigit n) = unat colon" by simp
  then show False using n by (simp add: unat_hexDigit colon_def split: if_splits)
qed

lemma byte_digits: "unat (b :: byte) div 16 < 16" "unat b mod 16 < 16"
  using unat_byte_less [of b] by simp_all

lemma hexDecode_hexEncode_append:
  "hexDecode (hexEncode bs @ cs) = bs @ hexDecode cs"
proof (induction bs)
  case Nil
  show ?case by simp
next
  case (Cons b bs)
  have "(of_nat (16 * (unat b div 16) + unat b mod 16) :: byte) = b"
    by (simp add: mult.commute)
  with Cons show ?case
    by (simp add: unhex_hexDigit byte_digits)
qed

lemma hexDecode_hexEncode: "hexDecode (hexEncode bs) = bs"
  using hexDecode_hexEncode_append [of bs "[]"] by simp

lemma length_hexEncode: "length (hexEncode bs) = 2 * length bs"
  by (induction bs) simp_all

lemma colon_notin_hexEncode: "colon \<notin> set (hexEncode bs)"
  using hexDigit_not_colon [OF byte_digits(1), THEN not_sym]
    hexDigit_not_colon [OF byte_digits(2), THEN not_sym]
  by (induction bs) auto

lemma js_split_ne: "js_split sep s \<noteq> []"
  by (induction s) (auto split: list.splits)

lemma js_split_none: "sep \<notin> set xs \<Longrightarrow> js_split sep xs = [xs]"
  by (induction xs) auto

lemma js_split_append:
  "sep \<notin> set xs \<Longrightarrow> js_split sep (xs @ sep # ys) = xs # js_split sep ys"
  by (induction xs) auto

section \<open>Decoding what the encoder wrote\<close>

lemma cont_byte: "unat (of_nat (0x80 + x mod 64) :: byte) = 0x80 + x mod 64"
  by (rule unat_u8) simp

lemma cont_mod: "(0x80 + x mod 64) mod 64 = (x mod 64 :: nat)"
  using mod_plus [of "x mod 64" 64 2] by simp

lemma cont_step:
  assumes "needed st = Suc k" "lower st \<le> 0x80 + x mod 64" "0x80 + x mod 64 \<le> upper st"
  shows "utf8Step st (unat (of_nat (0x80 + x mod 64) :: byte)) =
     (if k = 0 then (codeUnits (codepoint st * 64 + x mod 64), utf8Start)
      else ([], \<lparr>needed = k, codepoint = codepoint st * 64 + x mod 64, lower = 0x80, upper = 0xBF\<rparr>))"
  using assms unfolding cont_byte utf8Step_def Let_def cont_mod by simp

text \<open>One lemma for each length of the encoding of a code point.\<close>

lemma utf8Write_1:
  assumes "cp < 0x80"
  shows "utf8Write utf8Start (utf8Bytes cp @ rest) =
    (case utf8Write utf8Start rest of (outs, st) \<Rightarrow> (codeUnits cp @ outs, st))"
proof -
  have b: "unat (of_nat cp :: byte) = cp" using assms by (intro unat_u8) simp
  have "utf8Step utf8Start cp = (codeUnits cp, utf8Start)"
    using assms by (simp add: utf8Step_def leadByte_def utf8Start_def)
  then show ?thesis using assms
    by (simp add: utf8Bytes_def b)
qed

lemma utf8Write_2:
  assumes "0x80 \<le> cp" "cp < 0x800"
  shows "utf8Write utf8Start (utf8Bytes cp @ rest) =
    (case utf8Write utf8Start rest of (outs, st) \<Rightarrow> (codeUnits cp @ outs, st))"
proof -
  define q where "q = cp div 64"
  have q: "2 \<le> q" "q < 32" using assms by (simp_all add: q_def)
  have b1: "unat (of_nat (0xC0 + q) :: byte) = 0xC0 + q"
    using q by (intro unat_u8) simp
  have m: "(0xC0 + q) mod 32 = q"
    using mod_plus [of q 32 6] q by simp
  have lead: "leadByte (0xC0 + q) = ([], \<lparr>needed = 1, codepoint = q, lower = 0x80, upper = 0xBF\<rparr>)"
    using q unfolding leadByte_def m by simp
  have bytes: "utf8Bytes cp = [of_nat (0xC0 + q), of_nat (0x80 + cp mod 64)]"
    using assms by (simp add: utf8Bytes_def q_def del: of_nat_add of_nat_numeral)
  have s1: "utf8Step utf8Start (unat (of_nat (0xC0 + q) :: byte)) =
      ([], \<lparr>needed = 1, codepoint = q, lower = 0x80, upper = 0xBF\<rparr>)"
    unfolding b1 utf8Step_def lead by (simp add: utf8Start_def)
  have s2: "utf8Step \<lparr>needed = 1, codepoint = q, lower = 0x80, upper = 0xBF\<rparr>
      (unat (of_nat (0x80 + cp mod 64) :: byte)) = (codeUnits cp, utf8Start)"
    by (subst cont_step [where k = 0]) (simp_all add: q_def)
  show ?thesis
    unfolding bytes
    by (simp only: append_Cons append_Nil utf8Write.simps s1 s2 prod.case split: prod.split) simp
qed

lemma utf8Write_3:
  assumes "0x800 \<le> cp" "cp < 0x10000" "\<not> (0xD800 \<le> cp \<and> cp \<le> 0xDFFF)"
  shows "utf8Write utf8Start (utf8Bytes cp @ rest) =
    (case utf8Write utf8Start rest of (outs, st) \<Rightarrow> (codeUnits cp @ outs, st))"
proof -
  define x where "x = cp div 64"
  define q where "q = x div 64"
  define r where "r = x mod 64"
  have x: "x = q * 64 + r" by (simp add: q_def r_def)
  have cp: "cp = x * 64 + cp mod 64" by (simp add: x_def)
  have c: "cp mod 64 < 64" by simp
  have r: "r < 64" by (simp add: r_def)
  have q: "q < 16" using assms by (simp add: q_def x_def)
  have b1: "unat (of_nat (0xE0 + q) :: byte) = 0xE0 + q"
    using q by (intro unat_u8) simp
  have m: "(0xE0 + q) mod 16 = q"
    using mod_plus [of q 16 14] q by simp
  define lo where "lo = (if q = 0 then 0xA0 else (0x80::nat))"
  define hi where "hi = (if q = 13 then 0x9F else (0xBF::nat))"
  have lead: "leadByte (0xE0 + q) = ([], \<lparr>needed = 2, codepoint = q, lower = lo, upper = hi\<rparr>)"
    using q unfolding leadByte_def m lo_def hi_def by simp
  have lo: "lo \<le> 0x80 + r"
    using assms(1) x cp c unfolding lo_def by (cases "q = 0") simp_all
  have hi: "0x80 + r \<le> hi"
  proof (cases "q = 13")
    case True
    have "cp < 0xD800" using assms(3) cp x c r True by linarith
    then have "r < 32" using cp x True by linarith
    then show ?thesis by (simp add: hi_def True)
  next
    case False
    then show ?thesis using r by (simp add: hi_def)
  qed
  have bytes: "utf8Bytes cp = [of_nat (0xE0 + q), of_nat (0x80 + x mod 64), of_nat (0x80 + cp mod 64)]"
    using assms by (simp add: utf8Bytes_def q_def x_def del: of_nat_add of_nat_numeral)
  have s1: "utf8Step utf8Start (unat (of_nat (0xE0 + q) :: byte)) =
      ([], \<lparr>needed = 2, codepoint = q, lower = lo, upper = hi\<rparr>)"
    unfolding b1 utf8Step_def lead by (simp add: utf8Start_def)
  have s2: "utf8Step \<lparr>needed = 2, codepoint = q, lower = lo, upper = hi\<rparr>
      (unat (of_nat (0x80 + x mod 64) :: byte)) =
      ([], \<lparr>needed = 1, codepoint = x, lower = 0x80, upper = 0xBF\<rparr>)"
    using lo hi by (subst cont_step [where k = 1]) (simp_all add: q_def r_def)
  have s3: "utf8Step \<lparr>needed = 1, codepoint = x, lower = 0x80, upper = 0xBF\<rparr>
      (unat (of_nat (0x80 + cp mod 64) :: byte)) = (codeUnits cp, utf8Start)"
    by (subst cont_step [where k = 0]) (simp_all add: x_def)
  show ?thesis
    unfolding bytes
    by (simp only: append_Cons append_Nil utf8Write.simps s1 s2 s3 prod.case split: prod.split) simp
qed

lemma utf8Write_4:
  assumes "0x10000 \<le> cp" "cp < 0x110000"
  shows "utf8Write utf8Start (utf8Bytes cp @ rest) =
    (case utf8Write utf8Start rest of (outs, st) \<Rightarrow> (codeUnits cp @ outs, st))"
proof -
  define x where "x = cp div 64"
  define y where "y = x div 64"
  define q where "q = y div 64"
  define r where "r = y mod 64"
  have y: "y = q * 64 + r" by (simp add: q_def r_def)
  have x: "x = y * 64 + x mod 64" by (simp add: y_def)
  have cp: "cp = x * 64 + cp mod 64" by (simp add: x_def)
  have c: "cp mod 64 < 64" "x mod 64 < 64" by simp_all
  have r: "r < 64" by (simp add: r_def)
  have q: "q < 5" using assms by (simp add: q_def y_def x_def)
  have b1: "unat (of_nat (0xF0 + q) :: byte) = 0xF0 + q"
    using q by (intro unat_u8) simp
  have m: "(0xF0 + q) mod 8 = q"
    using mod_plus [of q 8 30] q by simp
  define lo where "lo = (if q = 0 then 0x90 else (0x80::nat))"
  define hi where "hi = (if q = 4 then 0x8F else (0xBF::nat))"
  have lead: "leadByte (0xF0 + q) = ([], \<lparr>needed = 3, codepoint = q, lower = lo, upper = hi\<rparr>)"
    using q unfolding leadByte_def m lo_def hi_def by simp
  have lo: "lo \<le> 0x80 + r"
  proof (cases "q = 0")
    case True
    have "16 \<le> r" using assms(1) cp x y c True by linarith
    then show ?thesis by (simp add: lo_def True)
  next
    case False
    then show ?thesis by (simp add: lo_def)
  qed
  have hi: "0x80 + r \<le> hi"
  proof (cases "q = 4")
    case True
    have "r < 16" using assms(2) cp x y c True by linarith
    then show ?thesis by (simp add: hi_def True)
  next
    case False
    then show ?thesis using r by (simp add: hi_def)
  qed
  have bytes: "utf8Bytes cp = [of_nat (0xF0 + q), of_nat (0x80 + y mod 64),
      of_nat (0x80 + x mod 64), of_nat (0x80 + cp mod 64)]"
    using assms by (simp add: utf8Bytes_def q_def y_def x_def del: of_nat_add of_nat_numeral)
  have s1: "utf8Step utf8Start (unat (of_nat (0xF0 + q) :: byte)) =
      ([], \<lparr>needed = 3, codepoint = q, lower = lo, upper = hi\<rparr>)"
    unfolding b1 utf8Step_def lead by (simp add: utf8Start_def)
  have s2: "utf8Step \<lparr>needed = 3, codepoint = q, lower = lo, upper = hi\<rparr>
      (unat (of_nat (0x80 + y mod 64) :: byte)) =
      ([], \<lparr>needed = 2, codepoint = y, lower = 0x80, upper = 0xBF\<rparr>)"
    using lo hi by (subst cont_step [where k = 2]) (simp_all add: q_def r_def)
  have s3: "utf8Step \<lparr>needed = 2, codepoint = y, lower = 0x80, upper = 0xBF\<rparr>
      (unat (of_nat (0x80 + x mod 64) :: byte)) =
      ([], \<lparr>needed = 1, codepoint = x, lower = 0x80, upper = 0xBF\<rparr>)"
    by (subst cont_step [where k = 1]) (simp_all add: y_def)
  have s4: "utf8Step \<lparr>needed = 1, codepoint = x, lower = 0x80, upper = 0xBF\<rparr>
      (unat (of_nat (0x80 + cp mod 64) :: byte)) = (codeUnits cp, utf8Start)"
    by (subst cont_step [where k = 0]) (simp_all add: x_def)
  show ?thesis
    unfolding bytes
    by (simp only: append_Cons append_Nil utf8Write.simps s1 s2 s3 s4 prod.case split: prod.split) simp
qed

lemma utf8Write_scalar:
  assumes "cp < 0x110000" "\<not> (0xD800 \<le> cp \<and> cp \<le> 0xDFFF)"
  shows "utf8Write utf8Start (utf8Bytes cp @ rest) =
    (case utf8Write utf8Start rest of (outs, st) \<Rightarrow> (codeUnits cp @ outs, st))"
proof -
  consider "cp < 0x80" | "0x80 \<le> cp" "cp < 0x800" | "0x800 \<le> cp" "cp < 0x10000"
    | "0x10000 \<le> cp"
    by linarith
  then show ?thesis
  proof cases
    case 1
    then show ?thesis by (rule utf8Write_1)
  next
    case 2
    then show ?thesis by (rule utf8Write_2)
  next
    case 3
    then show ?thesis using assms(2) by (rule utf8Write_3)
  next
    case 4
    then show ?thesis using assms(1) by (rule utf8Write_4)
  qed
qed

lemma codeUnits_unit:
  "codeUnits (unat (c :: 16 word)) = [c]"
  using unat_unit_less [of c] by (simp add: codeUnits_def)

lemma codeUnits_pair:
  assumes "isHigh (unat c)" "isLow (unat d)"
  shows "codeUnits (0x10000 + (unat c - 0xD800) * 1024 + (unat d - 0xDC00)) = [c, d]"
proof -
  define a where "a = unat c - 0xD800"
  define b where "b = unat d - 0xDC00"
  have a: "0xD800 + a = unat c" using assms(1) unfolding a_def isHigh_def by linarith
  have b: "0xDC00 + b = unat d" "b < 1024" using assms(2) unfolding b_def isLow_def by linarith+
  have "(a * 1024 + b) div 1024 = a" "(a * 1024 + b) mod 1024 = b"
    using b(2) by simp_all
  then have "codeUnits (0x10000 + a * 1024 + b) = [of_nat (0xD800 + a), of_nat (0xDC00 + b)]"
    by (simp add: codeUnits_def del: of_nat_add of_nat_numeral)
  then show ?thesis unfolding a b(1) by (simp add: a_def b_def)
qed

lemma pair_scalar:
  assumes "isHigh (unat (c :: 16 word))" "isLow (unat (d :: 16 word))"
  shows "0x10000 + (unat c - 0xD800) * 1024 + (unat d - 0xDC00) < 0x110000"
    and "\<not> (0xD800 \<le> 0x10000 + (unat c - 0xD800) * 1024 + (unat d - 0xDC00)
          \<and> 0x10000 + (unat c - 0xD800) * 1024 + (unat d - 0xDC00) \<le> 0xDFFF)"
  using assms unfolding isHigh_def isLow_def by linarith+

lemma utf8Write_utf8Encode:
  "wellFormed x \<Longrightarrow> utf8Write utf8Start (utf8Encode x) = (x, utf8Start)"
proof (induction x rule: utf8Encode.induct)
  case 1
  show ?case by simp
next
  case (2 c)
  then have "\<not> (0xD800 \<le> unat c \<and> unat c \<le> 0xDFFF)"
    by (auto simp: isHigh_def isLow_def)
  moreover have "unat c < 0x110000" using unat_unit_less [of c] by simp
  ultimately have "utf8Write utf8Start (utf8Bytes (unat c) @ []) =
      (case utf8Write utf8Start [] of (outs, st) \<Rightarrow> (codeUnits (unat c) @ outs, st))"
    by (rule utf8Write_scalar [rotated])
  with 2 show ?case by (simp add: codeUnits_unit)
next
  case (3 c d cs)
  show ?case
  proof (cases "isHigh (unat c)")
    case True
    with 3 have low: "isLow (unat d)" and wf: "wellFormed cs" by simp_all
    have "utf8Write utf8Start (utf8Encode cs) = (cs, utf8Start)" using 3 True low wf by simp
    then show ?thesis
      using True low pair_scalar [OF True low]
      by (simp add: utf8Write_scalar codeUnits_pair)
  next
    case False
    with 3 have nl: "\<not> isLow (unat c)" and wf: "wellFormed (d # cs)" by simp_all
    have ns: "\<not> (0xD800 \<le> unat c \<and> unat c \<le> 0xDFFF)"
      using False nl by (auto simp: isHigh_def isLow_def)
    have lt: "unat c < 0x110000" using unat_unit_less [of c] by simp
    have "utf8Write utf8Start (utf8Encode (d # cs)) = (d # cs, utf8Start)" using 3 False nl wf by simp
    then show ?thesis
      using False nl by (simp add: utf8Write_scalar [OF lt ns] codeUnits_unit)
  qed
qed

section \<open>The counter mode is its own inverse\<close>

lemma length_blockToBytes [simp]: "length (blockToBytes w) = 16"
  by (simp add: blockToBytes_def)

lemma length_keystream: "length (keystream key cb n) = 16 * n"
  by (induction n) (simp_all add: keystream_def)

lemma length_xorBytes: "length (xorBytes xs ys) = min (length xs) (length ys)"
  by (simp add: xorBytes_def)

lemma xorBytes_twice:
  "length xs \<le> length ys \<Longrightarrow> xorBytes (xorBytes xs ys) ys = xs"
proof (induction xs arbitrary: ys)
  case Nil
  show ?case by (simp add: xorBytes_def)
next
  case (Cons x xs)
  then obtain y ys' where ys: "ys = y # ys'" by (cases ys) auto
  have "(x XOR y) XOR y = x" by (simp add: xor.assoc)
  with Cons ys show ?case by (simp add: xorBytes_def)
qed

lemma round_up_16: "(n::nat) \<le> 16 * ((n + 15) div 16)"
proof -
  define q where "q = (n + 15) div 16"
  define r where "r = (n + 15) mod 16"
  have "n + 15 = 16 * q + r" "r < 16" by (simp_all add: q_def r_def)
  then show ?thesis unfolding q_def [symmetric] by linarith
qed

lemma length_gctr: "length (gctr key cb xs) = length xs"
  using round_up_16 [of "length xs"] by (simp add: gctr_def length_xorBytes length_keystream)

lemma gctr_twice: "gctr key cb (gctr key cb xs) = xs"
proof -
  have "gctr key cb (gctr key cb xs) =
      xorBytes (xorBytes xs (keystream key cb ((length xs + 15) div 16)))
        (keystream key cb ((length xs + 15) div 16))"
    unfolding gctr_def [of key cb "gctr key cb xs"] length_gctr by (simp add: gctr_def)
  then show ?thesis
    using round_up_16 [of "length xs"] by (simp add: xorBytes_twice length_keystream)
qed

lemma length_gcmCrypt: "length (gcmCrypt key iv xs) = length xs"
  by (simp add: gcmCrypt_def length_gctr)

lemma gcmCrypt_twice: "gcmCrypt key iv (gcmCrypt key iv xs) = xs"
  by (simp add: gcmCrypt_def gctr_twice)

lemma length_gcmTag: "length (gcmTag key iv c) = 16"
  by (simp add: gcmTag_def Let_def)

section \<open>What \<open>encryptData\<close> returns and what \<open>decryptData\<close> makes of it\<close>

lemma length_randomBytes: "length (fst (randomBytes n g)) = n"
  by (simp add: randomBytes_def)

lemma encryptData_result:
  assumes "length (hexDecode k) = 32"
  shows "encryptData (Some k) (JStr x) g =
    (Inr (hexEncode (fst (randomBytes 12 g)) @ colon #
          hexEncode (gcmTag (hexDecode k) (fst (randomBytes 12 g))
            (gcmCrypt (hexDecode k) (fst (randomBytes 12 g)) (utf8Encode x))) @ colon #
          hexEncode (gcmCrypt (hexDecode k) (fst (randomBytes 12 g)) (utf8Encode x))),
     snd (randomBytes 12 g))"
proof -
  have iv: "fst (randomBytes 12 g) \<noteq> []"
    using length_randomBytes [of 12 g] by auto
  obtain IV g' where r: "randomBytes 12 g = (IV, g')" by (cases "randomBytes 12 g")
  with iv have "IV \<noteq> []" by simp
  then show ?thesis
    using assms
    by (simp add: encryptData_def r Buffer_from_hex_def createCipheriv_def cipher_update_def
        cipher_final_def getAuthTag_def Let_def)
qed

text \<open>
  Decryption of an encoding whose third segment is followed by characters that are not hex
  digits, and by further segments: neither is looked at.
\<close>

lemma decryptData_encoded_junk:
  assumes key: "length (hexDecode k) = 32" and iv: "iv \<noteq> []" and wf: "wellFormed x"
    and junk: "colon \<notin> set junk" "hexDecode junk = []" "even (length junk)"
    and rest: "rest = [] \<or> hd rest = colon"
  shows "decryptData (Some k) (JStr (hexEncode iv @ colon #
            hexEncode (gcmTag (hexDecode k) iv (gcmCrypt (hexDecode k) iv (utf8Encode x))) @ colon #
            hexEncode (gcmCrypt (hexDecode k) iv (utf8Encode x)) @ junk @ rest)) = Inr x"
proof -
  define ct where "ct = gcmCrypt (hexDecode k) iv (utf8Encode x)"
  define tag where "tag = gcmTag (hexDecode k) iv ct"
  have nc: "colon \<notin> set (hexEncode ct @ junk)"
    using junk(1) colon_notin_hexEncode [of ct] by simp
  have third: "\<exists>more. js_split colon ((hexEncode ct @ junk) @ rest) = (hexEncode ct @ junk) # more"
  proof (cases rest)
    case Nil
    then show ?thesis using nc by (simp add: js_split_none)
  next
    case (Cons c cs)
    with rest have "rest = colon # cs" by simp
    then show ?thesis using js_split_append [OF nc, of cs] by simp
  qed
  then obtain more where more: "js_split colon (hexEncode ct @ junk @ rest) = (hexEncode ct @ junk) # more"
    by auto
  have parts: "js_split colon (hexEncode iv @ colon # hexEncode tag @ colon # hexEncode ct @ junk @ rest)
      = hexEncode iv # hexEncode tag # (hexEncode ct @ junk) # more"
    by (simp add: js_split_append colon_notin_hexEncode more)
  have tl: "length tag = 16" by (simp add: tag_def length_gcmTag)
  have dec: "utf8Write utf8Start (gcmCrypt (hexDecode k) iv ct) = (x, utf8Start)"
    unfolding ct_def gcmCrypt_twice using wf by (rule utf8Write_utf8Encode)
  have "decryptData (Some k) (JStr (hexEncode iv @ colon # hexEncode tag @ colon # hexEncode ct @ junk @ rest))
      = Inr x"
    using key iv tl dec junk(2,3)
    by (simp add: decryptData_def parts element_def Buffer_from_hex_def hexDecode_hexEncode
        hexDecode_hexEncode_append
        createDecipheriv_def createCipheriv_def setAuthTag_def decipher_update_def
        decipher_final_def length_hexEncode utf8End_def utf8Start_def tag_def [symmetric] Let_def)
  then show ?thesis by (simp add: tag_def ct_def)
qed

lemma decryptData_encoded:
  assumes key: "length (hexDecode k) = 32" and iv: "iv \<noteq> []" and wf: "wellFormed x"
    and rest: "rest = [] \<or> hd rest = colon"
  shows "decryptData (Some k) (JStr (hexEncode iv @ colon #
            hexEncode (gcmTag (hexDecode k) iv (gcmCrypt (hexDecode k) iv (utf8Encode x))) @ colon #
            hexEncode (gcmCrypt (hexDecode k) iv (utf8Encode x)) @ rest)) = Inr x"
  using decryptData_encoded_junk [OF key iv wf _ _ _ rest, of "[]"] by simp

section \<open>The concrete scenario\<close>

lemma hexString_hexEncode: "hexString (hexEncode bs)"
  by (induction bs) (simp_all add: hexString_def unhex_hexDigit byte_digits)

lemma no_colon_hexEncode: "filter (\<lambda>c. c = colon) (hexEncode bs) = []"
  using colon_notin_hexEncode [of bs] by (auto simp: filter_empty_conv)

lemma exampleKey_length: "length (hexDecode exampleKey) = 32"
  by (simp add: exampleKey_def js_def unhex_def)

lemma examplePhone_wellFormed: "wellFormed examplePhone"
  by (simp add: examplePhone_def js_def isHigh_def isLow_def)

lemma exampleRng_fresh:
  "fst (randomBytes 12 exampleRng) \<noteq> fst (randomBytes 12 (snd (randomBytes 12 exampleRng)))"
  by (simp add: randomBytes_def exampleRng_def upt_rec)

lemma exampleEncoded:
  "fst (encryptData (Some exampleKey) (JStr examplePhone) exampleRng) = Inr exampleEncoded"
  by (simp add: exampleEncoded_def encryptData_result [OF exampleKey_length])

lemma exampleEncoded_eq:
  "exampleEncoded = hexEncode (fst (randomBytes 12 exampleRng)) @ colon #
     hexEncode (gcmTag (hexDecode exampleKey) (fst (randomBytes 12 exampleRng))
       (gcmCrypt (hexDecode exampleKey) (fst (randomBytes 12 exampleRng)) (utf8Encode examplePhone))) @ colon #
     hexEncode (gcmCrypt (hexDecode exampleKey) (fst (randomBytes 12 exampleRng)) (utf8Encode examplePhone))"
  by (simp add: exampleEncoded_def encryptData_result [OF exampleKey_length])


lemma js_split_exampleEncoded:
  "\<exists>ivh tagh cth. js_split colon exampleEncoded = [ivh, tagh, cth]"
  unfolding exampleEncoded_eq
  by (simp add: js_split_append js_split_none colon_notin_hexEncode)

section \<open>Facts about bcrypt hash strings\<close>

lemma length_funpow_map: "length (((map f) ^^ n) xs) = length xs" for f :: "'a \<Rightarrow> 'a"
  by (induction n arbitrary: xs) simp_all

lemma length_b64Encode: "length (b64Encode bs) = (4 * length bs + 2) div 3"
  by (induction bs rule: b64Encode.induct) simp_all

lemma b64val_b64char: "v < 64 \<Longrightarrow> b64val (b64char v) = Some v"
proof -
  assume v: "v < 64"
  have u: "unat (of_nat (63 + v) :: byte) = 63 + v" "unat (of_nat (69 + v) :: byte) = 69 + v"
    "unat (of_nat (v - 6) :: byte) = v - 6"
    using v by (simp_all add: unat_u8 del: of_nat_add of_nat_diff)
  consider "v = 0" | "v = 1" | "2 \<le> v" "v < 28" | "28 \<le> v" "v < 54" | "54 \<le> v" by linarith
  then show ?thesis
  proof cases
    case 1 then show ?thesis by (simp add: b64char_def b64val_def)
  next
    case 2 then show ?thesis by (simp add: b64char_def b64val_def)
  next
    case 3 then show ?thesis unfolding b64char_def b64val_def Let_def by (simp add: u del: of_nat_add of_nat_diff)
  next
    case 4 then show ?thesis unfolding b64char_def b64val_def Let_def by (simp add: u del: of_nat_add of_nat_diff)
  next
    case 5
    then have "48 \<le> v - 6" "v - 6 \<le> 57" "v - 6 + 6 = v" using v by linarith+
    with 5 show ?thesis unfolding b64char_def b64val_def Let_def by (simp add: u del: of_nat_add of_nat_diff)
  qed
qed

lemma b64_sextets:
  "unat (a :: byte) div 4 < 64" "unat (a :: byte) mod 4 * 16 + unat (b :: byte) div 16 < 64"
  "unat (b :: byte) mod 16 * 4 + unat (c :: byte) div 64 < 64" "unat (c :: byte) mod 64 < 64"
  "unat (b :: byte) mod 16 * 4 < 64" "unat (a :: byte) mod 4 * 16 < 64"
proof -
  have a: "unat a mod 4 < 4" and b: "unat b mod 16 < 16" by simp_all
  have a': "unat a div 4 < 64" and b': "unat b div 16 < 16" and c': "unat c div 64 < 4"
    using unat_byte_less [of a] unat_byte_less [of b] unat_byte_less [of c] by simp_all
  show "unat a div 4 < 64" by (rule a')
  show "unat a mod 4 * 16 + unat b div 16 < 64" using a b' by linarith
  show "unat b mod 16 * 4 + unat c div 64 < 64" using b c' by linarith
  show "unat c mod 64 < 64" by simp
  show "unat b mod 16 * 4 < 64" using b by linarith
  show "unat a mod 4 * 16 < 64" using a by linarith
qed

lemma b64_first:
  assumes "q < 16"
  shows "(of_nat (unat (a :: byte) div 4 * 4 + (unat a mod 4 * 16 + q) div 16) :: byte) = a"
proof -
  have "(unat a mod 4 * 16 + q) div 16 = unat a mod 4" using assms by simp
  then show ?thesis by simp
qed

lemma b64_second:
  assumes "q < 4"
  shows "(of_nat ((p * 16 + unat (b :: byte) div 16) mod 16 * 16 + (unat b mod 16 * 4 + q) div 4) :: byte) = b"
proof -
  have d: "unat b div 16 < 16" using unat_byte_less [of b] by simp
  have "(p * 16 + unat b div 16) mod 16 = unat b div 16" using d by simp
  moreover have "(unat b mod 16 * 4 + q) div 4 = unat b mod 16" using assms by simp
  ultimately show ?thesis by simp
qed

lemma b64_third:
  "(of_nat ((p * 4 + unat (c :: byte) div 64) mod 4 * 64 + unat c mod 64) :: byte) = c"
proof -
  have d: "unat c div 64 < 4" using unat_byte_less [of c] by simp
  have "(p * 4 + unat c div 64) mod 4 = unat c div 64" using d by simp
  then show ?thesis by simp
qed
lemma b64Bytes_b64Encode:
  "b64Bytes (map (\<lambda>c. the (b64val c)) (b64Encode bs)) = bs"
proof (induction bs rule: b64Encode.induct)
  case (1 a b c bs)
  have c: "unat c div 64 < 4" and b: "unat b div 16 < 16"
    using unat_byte_less [of b] unat_byte_less [of c] by simp_all
  show ?case
    using 1 b64_first [of "unat b div 16" a, OF b] b64_second [of "unat c div 64" "unat a mod 4" b, OF c]
      b64_third [of "unat b mod 16" c]
    by (simp add: b64val_b64char b64_sextets)
next
  case (2 a b)
  have b: "unat b div 16 < 16" using unat_byte_less [of b] by simp
  show ?case
    using b64_first [of "unat b div 16" a, OF b] b64_second [of 0 "unat a mod 4" b]
    by (simp add: b64val_b64char b64_sextets)
next
  case (3 a)
  show ?case
    using b64_first [of 0 a] by (simp add: b64val_b64char b64_sextets)
next
  case 4
  show ?case by simp
qed
lemma b64Encode_valid: "list_all (\<lambda>c. b64val c \<noteq> None) (b64Encode bs)"
  by (induction bs rule: b64Encode.induct) (simp_all add: b64val_b64char b64_sextets del: not_None_eq)

lemma b64Decode_b64Encode: "b64Decode (b64Encode bs) = Some bs"
  by (simp add: b64Decode_def b64Encode_valid b64Bytes_b64Encode del: not_None_eq)
lemma length_wordBytes [simp]: "length (wordBytes w) = 4"
  by (simp add: wordBytes_def)

lemma length_bcryptDigest: "length (bcryptDigest cost salt key) = 23"
proof -
  have "length (concat (map (\<lambda>(l, r). wordBytes l @ wordBytes r) xs)) = 8 * length xs"
    for xs :: "(u32 \<times> u32) list"
    by (induction xs) (simp_all split: prod.split)
  then show ?thesis
    by (simp add: bcryptDigest_def Let_def length_funpow_map)
qed
lemma genSaltRounds_range: "4 \<le> genSaltRounds r \<and> genSaltRounds r \<le> 31"
  by (cases r) (simp_all add: genSaltRounds_def Let_def)

lemma b64Encode_inj:
  assumes "b64Encode xs = b64Encode ys"
  shows "xs = ys"
proof -
  have "Some xs = b64Decode (b64Encode xs)" by (simp only: b64Decode_b64Encode)
  also have "\<dots> = b64Decode (b64Encode ys)" by (simp only: assms)
  also have "\<dots> = Some ys" by (simp only: b64Decode_b64Encode)
  finally show ?thesis by simp
qed

text \<open>The characters of a hash string pass between C and JavaScript unchanged.\<close>

lemma utf8Write_ascii:
  "\<forall>b \<in> set bs. unat b < 128 \<Longrightarrow> utf8Write utf8Start bs = (map ucast bs, utf8Start)"
proof (induction bs)
  case Nil
  show ?case by simp
next
  case (Cons b bs)
  then have b: "unat b < 128" by simp
  have c: "codeUnits (unat b) = [ucast b]"
    using b by (simp add: codeUnits_def)
  have "utf8Step utf8Start (unat b) = ([ucast b], utf8Start)"
    using b by (simp add: utf8Step_def leadByte_def utf8Start_def c)
  then show ?case using Cons by simp
qed

lemma utf8Decode_ascii:
  "\<forall>b \<in> set bs. unat b < 128 \<Longrightarrow> utf8Decode bs = map ucast bs"
proof -
  assume a: "\<forall>b \<in> set bs. unat b < 128"
  have "needed utf8Start = 0" by (simp add: utf8Start_def)
  then show ?thesis by (simp add: utf8Decode_def utf8Write_ascii [OF a] utf8End_def)
qed

lemma utf8Encode_single:
  assumes "\<not> isHigh (unat c)" "\<not> isLow (unat c)"
  shows "utf8Encode (c # cs) = utf8Bytes (unat c) @ utf8Encode cs"
  using assms by (cases cs) simp_all

lemma utf8Encode_units:
  "\<forall>c \<in> set cs. unat c < 128 \<Longrightarrow> utf8Encode cs = map ucast cs"
proof (induction cs)
  case Nil
  show ?case by simp
next
  case (Cons c cs)
  then have c: "unat c < 128" by simp
  then have n: "\<not> isHigh (unat c)" "\<not> isLow (unat c)" by (simp_all add: isHigh_def isLow_def)
  have "utf8Bytes (unat c) = [ucast c]" using c by (simp add: utf8Bytes_def)
  then show ?case using Cons by (simp add: utf8Encode_single [OF n])
qed

lemma ucast_ascii: "unat (ucast (b :: byte) :: 16 word) = unat b"
proof -
  have "unat b < 2 ^ 16" using unat_byte_less [of b] by simp
  then show ?thesis by (simp add: unsigned_ucast_eq take_bit_nat_eq_self)
qed

lemma ucast_back: "ucast (ucast (b :: byte) :: 16 word) = b"
  by (simp add: ucast_down_ucast_id is_down)

lemma utf8Encode_utf8Decode:
  assumes "\<forall>b \<in> set bs. unat b < 128"
  shows "utf8Encode (utf8Decode bs) = bs"
proof -
  have "\<forall>c \<in> set (map ucast bs :: jsstring). unat c < 128"
    using assms by (simp add: ucast_ascii)
  then have "utf8Encode (map ucast bs :: jsstring) = map ucast (map ucast bs :: jsstring)"
    by (rule utf8Encode_units)
  then show ?thesis
    by (simp add: utf8Decode_ascii [OF assms] ucast_back comp_def)
qed

lemma cString_id: "0 \<notin> set bs \<Longrightarrow> cString bs = bs"
  unfolding cString_def by (induction bs) auto

lemma b64val_ascii: "b64val c \<noteq> None \<Longrightarrow> c \<noteq> 0 \<and> unat c < 128"
  by (auto simp: b64val_def Let_def split: if_splits)

lemma digit_facts:
  assumes "d < 10"
  shows "digit d \<noteq> 0" "unat (digit d) < 128" "isDigit (digit d)" "uint (digit d) - 48 = int d"
    "digit d \<noteq> 36" "\<not> isSpace (digit d)" "digit d \<noteq> 45" "digit d \<noteq> 43"
proof -
  have u: "unat (digit d) = 48 + d"
    unfolding digit_def using assms by (intro unat_u8) simp
  have ne: "digit d \<noteq> of_nat k" if "k < 48" for k
  proof
    assume "digit d = of_nat k"
    then have "unat (digit d) = unat (of_nat k :: byte)" by simp
    then show False using u that by (simp add: unat_u8)
  qed
  show "unat (digit d) < 128" using u assms by simp
  show "digit d \<noteq> 0" using ne [of 0] by simp
  have le: "(48 :: byte) \<le> digit d" "digit d \<le> 57"
    using u assms by (simp_all add: word_le_nat_alt)
  then show "isDigit (digit d)" by (simp add: isDigit_def)
  show "uint (digit d) - 48 = int d" using u by (simp add: uint_nat)
  show "digit d \<noteq> 36" using ne [of 36] by simp
  show "digit d \<noteq> 45" using ne [of 45] by simp
  show "digit d \<noteq> 43" using ne [of 43] by simp
  show "\<not> isSpace (digit d)" using ne [of 32] u by (auto simp: isSpace_def word_le_nat_alt)
qed

lemma atoi_digits:
  assumes "c < 100"
  shows "atoi (digit (c div 10) # digit (c mod 10) # 36 # rest) = int c"
proof -
  have d: "c div 10 < 10" "c mod 10 < 10" using assms by simp_all
  have n: "\<not> isDigit 36" by (simp add: isDigit_def)
  have "int (c div 10) * 10 + int (c mod 10) = int c"
    by (metis mult.commute of_nat_add of_nat_mult of_nat_numeral div_mult_mod_eq)
  then show ?thesis
    using digit_facts [OF d(1)] digit_facts [OF d(2)] n
    by (simp add: atoi_def)
qed

lemma pow_signed:
  assumes "4 \<le> c" "c \<le> 30"
  shows "\<not> signed_take_bit 31 (2 ^ c :: int) < 16"
proof -
  have "(2 :: int) ^ c \<le> 2 ^ 30" using assms(2) by (intro power_increasing) simp_all
  then have "(2 :: int) ^ c < 2 ^ 31" by simp
  moreover have "- (2 ^ 31) \<le> (2 :: int) ^ c"
    by (meson dual_order.trans neg_le_0_iff_le zero_le_numeral zero_le_power)
  ultimately have "signed_take_bit 31 (2 ^ c :: int) = 2 ^ c"
    by (simp add: signed_take_bit_int_eq_self)
  moreover have "(2 :: int) ^ 4 \<le> 2 ^ c" using assms(1) by (intro power_increasing) simp_all
  ultimately show ?thesis by simp
qed

lemma pow_signed_31: "signed_take_bit 31 (2 ^ 31 :: int) < 16"
  by simp

lemma length_b64Encode_16: "length salt = 16 \<Longrightarrow> length (b64Encode salt) = 22"
  by (simp add: length_b64Encode)

lemma salt_long: "\<not> (22 + n) * 3 div 4 < (16 :: nat)"
  by simp

lemma decodeSalt_b64Encode:
  "length salt = 16 \<Longrightarrow> decodeSalt (b64Encode salt @ rest) = Some salt"
  by (simp add: decodeSalt_def length_b64Encode_16 b64Decode_b64Encode)

lemma sint_50: "\<not> 50 < sint (50 :: byte)"
  by simp

lemma parseSalt_prefix0:
  assumes "4 \<le> c" "c \<le> 30" "length salt = 16"
  shows "parseSalt (36 # 50 # 36 # digit (c div 10) # digit (c mod 10) # 36 # b64Encode salt @ rest)
         = Some (0, c, salt)"
proof -
  define s where "s = 36 # 50 # 36 # digit (c div 10) # digit (c mod 10) # 36 # b64Encode salt @ rest"
  have c: "c < 100" using assms(2) by simp
  have ch: "charAt s 0 = 36" "charAt s 1 = 50" "charAt s 2 = 36" "charAt s 5 = 36"
    by (simp_all add: s_def charAt_def)
  have dr: "drop 3 s = digit (c div 10) # digit (c mod 10) # 36 # b64Encode salt @ rest"
    "drop 6 s = b64Encode salt @ rest"
    by (simp_all add: s_def)
  have a: "atoi (drop 3 s) = int c" unfolding dr by (rule atoi_digits [OF c])
  have n: "\<not> (31 < int c \<or> int c < 0)" using assms(2) by simp
  have l: "\<not> length (drop 6 s) * 3 div 4 < 16"
    unfolding dr using salt_long [of "length rest"] by (simp add: length_b64Encode_16 [OF assms(3)])
  have d: "decodeSalt (drop 6 s) = Some salt"
    unfolding dr by (rule decodeSalt_b64Encode [OF assms(3)])
  have p: "\<not> signed_take_bit 31 (2 ^ nat (int c) :: int) < 16"
    using pow_signed [OF assms(1,2)] by simp
  have "parseSalt s = Some (0, c, salt)"
    unfolding parseSalt_def ch Let_def
    apply (simp only: if_True if_False refl simp_thms sint_50)
    apply (simp only: numeral_plus_numeral arith_simps ch a n p l d if_False)
    apply simp
    done
  then show ?thesis by (simp only: s_def)
qed

lemma parseSalt_prefix1:
  assumes "m = 97 \<or> m = 98" "4 \<le> c" "c \<le> 30" "length salt = 16"
  shows "parseSalt (36 # 50 # m # 36 # digit (c div 10) # digit (c mod 10) # 36 # b64Encode salt @ rest)
         = Some (m, c, salt)"
proof -
  define s where "s = 36 # 50 # m # 36 # digit (c div 10) # digit (c mod 10) # 36 # b64Encode salt @ rest"
  have c: "c < 100" using assms(3) by simp
  have m: "m \<noteq> 36" "m \<noteq> 0" "\<not> (m \<noteq> 36 \<and> m \<noteq> 97 \<and> m \<noteq> 98)" using assms(1) by auto
  have ch: "charAt s 0 = 36" "charAt s 1 = 50" "charAt s 2 = m" "charAt s 6 = 36"
    by (simp_all add: s_def charAt_def)
  have dr: "drop 4 s = digit (c div 10) # digit (c mod 10) # 36 # b64Encode salt @ rest"
    "drop 7 s = b64Encode salt @ rest"
    by (simp_all add: s_def)
  have a: "atoi (drop 4 s) = int c" unfolding dr by (rule atoi_digits [OF c])
  have n: "\<not> (31 < int c \<or> int c < 0)" using assms(3) by simp
  have l: "\<not> length (drop 7 s) * 3 div 4 < 16"
    unfolding dr using salt_long [of "length rest"] by (simp add: length_b64Encode_16 [OF assms(4)])
  have d: "decodeSalt (drop 7 s) = Some salt"
    unfolding dr by (rule decodeSalt_b64Encode [OF assms(4)])
  have p: "\<not> signed_take_bit 31 (2 ^ nat (int c) :: int) < 16"
    using pow_signed [OF assms(2,3)] by simp
  have "parseSalt s = Some (m, c, salt)"
    unfolding parseSalt_def ch Let_def
    apply (simp only: if_True if_False refl simp_thms sint_50 m)
    apply (simp only: numeral_plus_numeral arith_simps ch a n p l d if_False)
    using assms(1) apply simp
    done
  then show ?thesis by (simp only: s_def)
qed

lemma bcryptString_ascii:
  assumes "minor = 0 \<or> minor = 97 \<or> minor = 98" "c < 100"
  shows "\<forall>b \<in> set (bcryptString minor c salt key). b \<noteq> 0 \<and> unat b < 128"
proof -
  have d: "c div 10 < 10" "c mod 10 < 10" using assms(2) by simp_all
  have e: "\<forall>b \<in> set (b64Encode xs). b \<noteq> 0 \<and> unat b < 128" for xs
    using b64Encode_valid [of xs] b64val_ascii by (auto simp: list_all_iff simp del: not_None_eq)
  show ?thesis
    unfolding bcryptString_def
    using assms(1) digit_facts(1,2) [OF d(1)] digit_facts(1,2) [OF d(2)] e [of salt]
      e [of "bcryptDigest c salt key"]
    by auto
qed

lemma genSalt_ascii:
  assumes "c < 100"
  shows "\<forall>b \<in> set ([36, 50, 98, 36, digit (c div 10), digit (c mod 10), 36] @ b64Encode seed). b \<noteq> 0 \<and> unat b < 128"
proof -
  have d: "c div 10 < 10" "c mod 10 < 10" using assms by simp_all
  have e: "\<forall>b \<in> set (b64Encode xs). b \<noteq> 0 \<and> unat b < 128" for xs
    using b64Encode_valid [of xs] b64val_ascii by (auto simp: list_all_iff simp del: not_None_eq)
  show ?thesis
    using digit_facts(1,2) [OF d(1)] digit_facts(1,2) [OF d(2)] e [of seed]
    by auto
qed

lemma parseSalt_bcryptString:
  assumes "minor = 0 \<or> minor = 97 \<or> minor = 98" "4 \<le> c" "c \<le> 30" "length salt = 16"
  shows "parseSalt (bcryptString minor c salt key) = Some (minor, c, salt)"
proof (cases "minor = 0")
  case True
  then show ?thesis
    using parseSalt_prefix0 [OF assms(2-4), of "b64Encode (bcryptDigest c salt key)"]
    by (simp add: bcryptString_def)
next
  case False
  with assms(1) have m: "minor = 97 \<or> minor = 98" by simp
  show ?thesis
    using False parseSalt_prefix1 [OF m assms(2-4), of "b64Encode (bcryptDigest c salt key)"]
    by (simp add: bcryptString_def)
qed

lemma through_js:
  assumes "\<forall>b \<in> set bs. b \<noteq> 0 \<and> unat b < 128"
  shows "cString (utf8Encode (utf8Decode bs)) = bs"
proof -
  have "utf8Encode (utf8Decode bs) = bs" using assms by (intro utf8Encode_utf8Decode) simp
  moreover have "0 \<notin> set bs" using assms by auto
  ultimately show ?thesis by (simp add: cString_id)
qed

lemma parseSalt_31:
  "parseSalt (36 # 50 # 98 # 36 # digit (31 div 10) # digit (31 mod 10) # 36 # rest) = None"
proof -
  define s where "s = 36 # 50 # 98 # 36 # digit (31 div 10) # digit (31 mod 10) # 36 # rest"
  have ch: "charAt s 0 = 36" "charAt s 1 = 50" "charAt s 2 = 98" "charAt s 6 = 36"
    by (simp_all add: s_def charAt_def)
  have dr: "drop 4 s = digit (31 div 10) # digit (31 mod 10) # 36 # rest"
    by (simp_all add: s_def)
  have a: "atoi (drop 4 s) = 31" unfolding dr using atoi_digits [of 31 rest] by simp
  have "parseSalt s = None"
    unfolding parseSalt_def ch Let_def
    apply (simp only: if_True if_False refl simp_thms sint_50)
    apply (simp add: ch a)
    done
  then show ?thesis by (simp only: s_def)
qed

lemma bcryptEncrypt_genSalt:
  assumes "4 \<le> c" "c \<le> 30" "length seed = 16"
  shows "bcryptEncrypt p (genSalt 98 c seed) =
     Inr (utf8Decode (bcryptString 98 c seed (bcryptKey 98 (utf8Encode p))))"
proof -
  have c: "c < 100" using assms(2) by simp
  have "cString (utf8Encode (genSalt 98 c seed)) =
      [36, 50, 98, 36, digit (c div 10), digit (c mod 10), 36] @ b64Encode seed"
    unfolding genSalt_def by (rule through_js [OF genSalt_ascii [OF c]])
  moreover have "parseSalt ([36, 50, 98, 36, digit (c div 10), digit (c mod 10), 36] @ b64Encode seed)
      = Some (98, c, seed)"
    using parseSalt_prefix1 [OF _ assms, of 98 "[]"] by simp
  ultimately show ?thesis by (simp add: bcryptEncrypt_def)
qed

lemma bcryptEncrypt_genSalt_31:
  "bcryptEncrypt p (genSalt 98 31 seed) = Inl BcryptError"
proof -
  have "cString (utf8Encode (genSalt 98 31 seed)) =
      [36, 50, 98, 36, digit (31 div 10), digit (31 mod 10), 36] @ b64Encode seed"
    unfolding genSalt_def by (rule through_js [OF genSalt_ascii]) simp
  moreover have "parseSalt ([36, 50, 98, 36, digit (31 div 10), digit (31 mod 10), 36] @ b64Encode seed)
      = None"
    using parseSalt_31 [of "b64Encode seed"] by simp
  ultimately show ?thesis by (simp add: bcryptEncrypt_def)
qed

lemma bcryptString_eq_iff:
  assumes "length salt = 16" "length salt' = 16"
  shows "bcryptString minor cost salt key = bcryptString minor cost salt' key'
     \<longleftrightarrow> salt = salt' \<and> bcryptDigest cost salt key = bcryptDigest cost salt key'"
proof -
  have l: "length (b64Encode salt) = length (b64Encode salt')"
    by (simp add: length_b64Encode assms)
  show ?thesis
    using l by (auto simp: bcryptString_def dest: b64Encode_inj)
qed


lemma bcryptCompare_bcryptString:
  assumes "minor = 0 \<or> minor = 97 \<or> minor = 98" "4 \<le> cost" "cost \<le> 30" "length salt = 16"
  shows "bcryptCompare p (utf8Decode (bcryptString minor cost salt key))
     = (bcryptDigest cost salt (bcryptKey minor (utf8Encode p)) = bcryptDigest cost salt key)"
proof -
  have c: "cost < 100" using assms(3) by simp
  have "cString (utf8Encode (utf8Decode (bcryptString minor cost salt key))) = bcryptString minor cost salt key"
    by (rule through_js [OF bcryptString_ascii [OF assms(1) c]])
  then show ?thesis
    using bcryptString_eq_iff [OF assms(4) assms(4)]
    by (simp add: bcryptCompare_def parseSalt_bcryptString [OF assms])
qed

lemma hashPassword_31:
  assumes "genSaltRounds r = 31"
  shows "hashPassword r (JStr p) g = (Inl BcryptError, snd (randomBytes 16 g))"
  using assms
  by (simp add: hashPassword_def bcryptHash_def bcryptEncrypt_genSalt_31 split: prod.split)



lemma hashPassword_result:
  assumes "genSaltRounds r \<le> 30"
  shows "hashPassword r (JStr p) g =
     (Inr (utf8Decode (bcryptString 98 (genSaltRounds r) (fst (randomBytes 16 g))
        (bcryptKey 98 (utf8Encode p)))), snd (randomBytes 16 g))"
proof -
  have "4 \<le> genSaltRounds r" using genSaltRounds_range [of r] by simp
  then show ?thesis
    using assms
    by (simp add: hashPassword_def bcryptHash_def case_prod_beta bcryptEncrypt_genSalt length_randomBytes)
qed







section \<open>Facts about the user service\<close>

lemma hashPassword_Inr:
  assumes "hashPassword r v g = (Inr h, g')"
  shows "\<exists>p. v = JStr p \<and> genSaltRounds r \<le> 30
    \<and> h = utf8Decode (bcryptString 98 (genSaltRounds r) (fst (randomBytes 16 g)) (bcryptKey 98 (utf8Encode p)))"
proof (cases "genSaltRounds r \<le> 30")
  case True
  show ?thesis
    using assms True by (cases v) (auto simp: hashPassword_result, auto simp: hashPassword_def)
next
  case False
  then have "genSaltRounds r = 31" using genSaltRounds_range [of r] by simp
  then show ?thesis
    using assms by (cases v) (auto simp: hashPassword_31, auto simp: hashPassword_def)
qed

lemma comparePassword_bcryptString:
  assumes "4 \<le> c" "c \<le> 30" "length salt = 16"
  shows "comparePassword (JStr p)
      (JStr (utf8Decode (bcryptString 98 c salt (bcryptKey 98 (utf8Encode p))))) = Inr True"
  using assms by (simp add: comparePassword_def bcryptCompare_bcryptString)

lemma create_Inr:
  assumes "create cfg db data g = (Inr docs, db', g')"
  shows "\<exists>doc. docs = [doc] \<and> doc ''password'' = Some (castString (getProp data ''password''))"
  using assms
  by (auto simp: create_def Let_def setPath_def required_def split: option.splits sum.splits prod.splits if_splits jsval.splits)

lemma login_removes_password:
  "case login cfg db inputs of Inr u \<Rightarrow> u ''password'' = None | Inl e \<Rightarrow> True"
  by (auto simp: login_def bindE_def split: option.splits sum.splits)


lemma trim_example:
  "trim (js ''Mina'') = js ''Mina''" "trim (js ''Nasr'') = js ''Nasr''"
  by (simp_all add: trim_def js_def isWhite_def)

lemma signup_returns_password:
  "case signup cfg db inputs g of
     (Inr docs, db', g') \<Rightarrow>
       docs \<noteq> [] \<and> list_all (\<lambda>d. \<exists>h. d ''password'' = Some (JStr h)
         \<and> comparePassword (getProp inputs ''password'') (JStr h) = Inr True) docs
   | (Inl e, db', g') \<Rightarrow> True"
proof (cases "signup cfg db inputs g")
  case (fields r db' g')
  show ?thesis
  proof (cases r)
    case (Inl e)
    with fields show ?thesis by simp
  next
    case (Inr docs)
    from fields Inr obtain h g1 where h: "hashPassword (saltRound cfg) (getProp inputs ''password'') g = (Inr h, g1)"
      and c: "create cfg db (inputs(''password'' \<mapsto> JStr h)) g1 = (Inr docs, db', g')"
      by (auto simp: signup_def split: option.splits sum.splits prod.splits)
    from create_Inr [OF c] obtain doc where d: "docs = [doc]" "doc ''password'' = Some (JStr h)"
      by (auto simp: getProp_def castString_def)
    from hashPassword_Inr [OF h] obtain p where p: "getProp inputs ''password'' = JStr p"
      "genSaltRounds (saltRound cfg) \<le> 30"
      "h = utf8Decode (bcryptString 98 (genSaltRounds (saltRound cfg)) (fst (randomBytes 16 g))
         (bcryptKey 98 (utf8Encode p)))"
      by auto
    have "comparePassword (JStr p) (JStr h) = Inr True"
      unfolding p(3) using genSaltRounds_range [of "saltRound cfg"] p(2)
      by (intro comparePassword_bcryptString) (simp_all add: length_randomBytes)
    with d p(1) fields Inr show ?thesis by simp
  qed
qed

lemma signup_example:
  "\<exists>doc db' g'. signup exampleConfig [] exampleInputs exampleRng = (Inr [doc], db', g')"
proof -
  have e: "\<exists>enc. encryptData (Some exampleKey) (JStr examplePhone) g = (Inr enc, snd (randomBytes 12 g))" for g
    by (simp add: encryptData_result [OF exampleKey_length])
  have t: "truthy (JStr examplePhone)"
    by (simp_all add: examplePhone_def js_def)
  have n: "validName (castTrimmed (JStr (js ''Mina'')))" "validName (castTrimmed (JStr (js ''Nasr'')))"
    by (simp_all add: validName_def castTrimmed_def castString_def trim_example) (simp_all add: js_def)
  have m: "required (castString (JStr (js ''mina@example.com'')))"
    by (simp add: required_def castString_def js_def)
  have r: "genSaltRounds (Integer 10) \<le> 30" by (simp add: genSaltRounds_def)
  have a: "\<forall>b \<in> set (bcryptString 98 (genSaltRounds (Integer 10)) salt key). b \<noteq> 0 \<and> unat b < 128" for salt key
    by (rule bcryptString_ascii) (simp_all add: genSaltRounds_def)
  have h: "required (castString (JStr (utf8Decode (bcryptString 98 (genSaltRounds (Integer 10)) salt key))))" for salt key
    using a [of salt key] by (simp add: required_def castString_def utf8Decode_ascii bcryptString_def)
  show ?thesis
    using e [of "snd (randomBytes 16 exampleRng)"] t n m h
    by (auto simp: signup_def findOne_def create_def hashPassword_result [OF r] exampleConfig_def
        exampleInputs_def phone_set_def getProp_def Let_def castString_def)
qed


lemma signup_example_eq:
  "signup exampleConfig [] exampleInputs exampleRng =
     (let g = snd (randomBytes 16 exampleRng);
          iv = fst (randomBytes 12 g);
          doc = [''firstName'' \<mapsto> JStr (js ''Mina''), ''lastName'' \<mapsto> JStr (js ''Nasr''),
            ''email'' \<mapsto> JStr (js ''mina@example.com''),
            ''password'' \<mapsto> JStr (utf8Decode (bcryptString 98 10 (fst (randomBytes 16 exampleRng))
                (bcryptKey 98 (utf8Encode (js ''secret''))))),
            ''phone'' \<mapsto> JStr (hexEncode iv @ colon #
               hexEncode (gcmTag (hexDecode exampleKey) iv (gcmCrypt (hexDecode exampleKey) iv (utf8Encode examplePhone))) @ colon #
               hexEncode (gcmCrypt (hexDecode exampleKey) iv (utf8Encode examplePhone)))]
      in (Inr [doc], [doc], snd (randomBytes 12 g)))"
proof -
  have t: "truthy (JStr examplePhone)"
    by (simp_all add: examplePhone_def js_def)
  have n: "validName (castTrimmed (JStr (js ''Mina'')))" "validName (castTrimmed (JStr (js ''Nasr'')))"
    "castTrimmed (JStr (js ''Mina'')) = JStr (js ''Mina'')" "castTrimmed (JStr (js ''Nasr'')) = JStr (js ''Nasr'')"
    by (simp_all add: validName_def castTrimmed_def castString_def trim_example) (simp_all add: js_def)
  have m: "required (castString (JStr (js ''mina@example.com'')))"
    by (simp add: required_def castString_def js_def)
  have r: "genSaltRounds (Integer 10) \<le> 30" "genSaltRounds (Integer 10) = 10" by (simp_all add: genSaltRounds_def)
  have a: "\<forall>b \<in> set (bcryptString 98 10 salt key). b \<noteq> 0 \<and> unat b < 128" for salt key
    by (rule bcryptString_ascii) simp_all
  have h: "required (castString (JStr (utf8Decode (bcryptString 98 10 salt key))))" for salt key
    using a [of salt key] by (simp add: required_def castString_def utf8Decode_ascii bcryptString_def)
  have c: "castString (JStr s) = JStr s" for s by (simp add: castString_def)
  show ?thesis
    using t n m h
    by (simp add: signup_def findOne_def create_def hashPassword_result [OF r(1)] r(2) exampleConfig_def
        exampleInputs_def phone_set_def getProp_def Let_def c setPath_def
        encryptData_result [OF exampleKey_length])
qed

lemma exampleUser_eq:
  "exampleUser =
     [''firstName'' \<mapsto> JStr (js ''Mina''), ''lastName'' \<mapsto> JStr (js ''Nasr''),
      ''email'' \<mapsto> JStr (js ''mina@example.com''),
      ''password'' \<mapsto> JStr (utf8Decode (bcryptString 98 10 (fst (randomBytes 16 exampleRng))
          (bcryptKey 98 (utf8Encode (js ''secret''))))),
      ''phone'' \<mapsto> JStr (hexEncode (fst (randomBytes 12 (snd (randomBytes 16 exampleRng)))) @ colon #
         hexEncode (gcmTag (hexDecode exampleKey) (fst (randomBytes 12 (snd (randomBytes 16 exampleRng))))
           (gcmCrypt (hexDecode exampleKey) (fst (randomBytes 12 (snd (randomBytes 16 exampleRng))))
             (utf8Encode examplePhone))) @ colon #
         hexEncode (gcmCrypt (hexDecode exampleKey) (fst (randomBytes 12 (snd (randomBytes 16 exampleRng))))
           (utf8Encode examplePhone)))]"
  by (simp add: exampleUser_def signup_example_eq Let_def)

lemma login_example:
  "\<exists>u. login exampleConfig [exampleUser] exampleInputs = Inr u
     \<and> u ''password'' = None \<and> u ''phone'' = Some (JStr examplePhone)"
proof -
  have iv: "fst (randomBytes 12 (snd (randomBytes 16 exampleRng))) \<noteq> []"
    using length_randomBytes [of 12 "snd (randomBytes 16 exampleRng)"] by auto
  have c: "comparePassword (JStr (js ''secret''))
      (JStr (utf8Decode (bcryptString 98 10 (fst (randomBytes 16 exampleRng))
          (bcryptKey 98 (utf8Encode (js ''secret'')))))) = Inr True"
    by (rule comparePassword_bcryptString) (simp_all add: length_randomBytes)
  have e: "js ''mina@example.com'' \<noteq> []" by (simp add: js_def)
  show ?thesis
    using c decryptData_encoded [OF exampleKey_length iv examplePhone_wellFormed, of "[]"]
    by (simp add: login_def findOne_def exampleUser_eq exampleInputs_def exampleConfig_def getProp_def
        castString_def toObject_def phone_get_def Let_def)
qed

section \<open>Facts about the configuration\<close>

lemma length_hexDecode: "hexString s \<Longrightarrow> length (hexDecode s) = length s div 2"
  by (induction s rule: hexDecode.induct) (auto simp: hexString_def)

lemma decimal_10: "positiveInteger (js ''10'')" "decimalValue (js ''10'') = 10"
  by (simp_all add: positiveInteger_def decimalValue_def js_def)

lemma exampleKey_hex: "length exampleKey = 64" "hexString exampleKey"
  by (simp_all add: exampleKey_def js_def hexString_def unhex_def)

lemma loadConfig_Inr:
  assumes "loadConfig env = Inr cfg"
  shows "\<exists>k c. ENCRYPTION_KEY env = Some k \<and> HASH_COST_FACTOR env = Some c
           \<and> length k = 64 \<and> hexString k \<and> positiveInteger c
           \<and> cfg = \<lparr>securityKey = Some k, saltRound = Integer (decimalValue c)\<rparr>"
  using assms by (auto simp: loadConfig_def split: option.splits if_splits)

section \<open>The claims about the field cipher\<close>

text \<open>
  C1.  Round trip: for every key that decodes to 32 bytes, every well-formed string \<open>x\<close> (the
  empty string and strings of multi-byte characters among them) and every state of the random
  source, that is every 12-byte IV \<open>encryptData\<close> can draw, \<open>encryptData\<close> returns an
  encoding and \<open>decryptData\<close> of that encoding returns exactly \<open>x\<close>.
\<close>

theorem decryptData_encryptData:
  assumes "length (hexDecode k) = 32" and "wellFormed x"
  shows "\<exists>enc. fst (encryptData (Some k) (JStr x) g) = Inr enc
           \<and> decryptData (Some k) (JStr enc) = Inr x"
proof -
  have "fst (randomBytes 12 g) \<noteq> []"
    using length_randomBytes [of 12 g] by auto
  then show ?thesis
    using decryptData_encoded [OF assms(1) _ assms(2), of "fst (randomBytes 12 g)" "[]"]
    by (simp add: encryptData_result [OF assms(1)])
qed

theorem decryptData_encryptData_witness:
  "length (hexDecode exampleKey) = 32 \<and> wellFormed examplePhone
   \<and> (\<exists>enc. fst (encryptData (Some exampleKey) (JStr examplePhone) exampleRng) = Inr enc
           \<and> decryptData (Some exampleKey) (JStr enc) = Inr examplePhone)"
  using decryptData_encryptData [OF exampleKey_length examplePhone_wellFormed, of exampleRng]
    exampleKey_length examplePhone_wellFormed
  by simp

text \<open>
  C4.  The encoding: for every plaintext string \<open>x\<close> and every key that decodes to 32 bytes,
  \<open>encryptData\<close> returns one string with exactly two colons, which splits into the hex form
  of the IV (24 digits), the hex form of the tag (32 digits) and the hex form of the ciphertext,
  in this order; the ciphertext segment has two digits for every byte of the UTF-8 form of
  \<open>x\<close>.
\<close>

theorem encryptData_format:
  assumes "length (hexDecode k) = 32"
  shows "\<exists>ivh tagh cth.
      fst (encryptData (Some k) (JStr x) g) = Inr (ivh @ colon # tagh @ colon # cth)
    \<and> length (filter (\<lambda>c. c = colon) (ivh @ colon # tagh @ colon # cth)) = 2
    \<and> js_split colon (ivh @ colon # tagh @ colon # cth) = [ivh, tagh, cth]
    \<and> hexString ivh \<and> length ivh = 24
    \<and> hexString tagh \<and> length tagh = 32
    \<and> hexString cth \<and> length cth = 2 * length (utf8Encode x)
    \<and> length (hexDecode cth) = length (utf8Encode x)
    \<and> ivh = hexEncode (fst (randomBytes 12 g))
    \<and> tagh = hexEncode (gcmTag (hexDecode k) (hexDecode ivh) (hexDecode cth))
    \<and> cth = hexEncode (gcmCrypt (hexDecode k) (hexDecode ivh) (utf8Encode x))"
proof -
  define iv where "iv = fst (randomBytes 12 g)"
  define ct where "ct = gcmCrypt (hexDecode k) iv (utf8Encode x)"
  define tag where "tag = gcmTag (hexDecode k) iv ct"
  have enc: "fst (encryptData (Some k) (JStr x) g) =
      Inr (hexEncode iv @ colon # hexEncode tag @ colon # hexEncode ct)"
    by (simp add: encryptData_result [OF assms] iv_def ct_def tag_def)
  have "length (filter (\<lambda>c. c = colon) (hexEncode iv @ colon # hexEncode tag @ colon # hexEncode ct)) = 2"
    by (simp add: no_colon_hexEncode)
  moreover have "js_split colon (hexEncode iv @ colon # hexEncode tag @ colon # hexEncode ct)
      = [hexEncode iv, hexEncode tag, hexEncode ct]"
    by (simp add: js_split_append js_split_none colon_notin_hexEncode)
  moreover have "length (hexEncode iv) = 24"
    by (simp add: length_hexEncode iv_def length_randomBytes)
  moreover have "length (hexEncode tag) = 32"
    by (simp add: length_hexEncode tag_def length_gcmTag)
  moreover have "length (hexEncode ct) = 2 * length (utf8Encode x)"
    by (simp add: length_hexEncode ct_def length_gcmCrypt)
  moreover have "length (hexDecode (hexEncode ct)) = length (utf8Encode x)"
    by (simp add: hexDecode_hexEncode ct_def length_gcmCrypt)
  moreover have "hexEncode tag =
      hexEncode (gcmTag (hexDecode k) (hexDecode (hexEncode iv)) (hexDecode (hexEncode ct)))"
    by (simp add: hexDecode_hexEncode tag_def)
  moreover have "hexEncode ct = hexEncode (gcmCrypt (hexDecode k) (hexDecode (hexEncode iv)) (utf8Encode x))"
    by (simp add: hexDecode_hexEncode ct_def)
  ultimately show ?thesis
    using enc hexString_hexEncode [of iv] hexString_hexEncode [of tag] hexString_hexEncode [of ct]
      iv_def
    by blast
qed

theorem encryptData_format_witness:
  "length (hexDecode exampleKey) = 32 \<and>
   (\<exists>ivh tagh cth.
      fst (encryptData (Some exampleKey) (JStr examplePhone) exampleRng)
        = Inr (ivh @ colon # tagh @ colon # cth)
    \<and> length (filter (\<lambda>c. c = colon) (ivh @ colon # tagh @ colon # cth)) = 2
    \<and> js_split colon (ivh @ colon # tagh @ colon # cth) = [ivh, tagh, cth]
    \<and> hexString ivh \<and> length ivh = 24
    \<and> hexString tagh \<and> length tagh = 32
    \<and> hexString cth \<and> length cth = 2 * length (utf8Encode examplePhone)
    \<and> length (hexDecode cth) = length (utf8Encode examplePhone)
    \<and> ivh = hexEncode (fst (randomBytes 12 exampleRng))
    \<and> tagh = hexEncode (gcmTag (hexDecode exampleKey) (hexDecode ivh) (hexDecode cth))
    \<and> cth = hexEncode (gcmCrypt (hexDecode exampleKey) (hexDecode ivh) (utf8Encode examplePhone)))"
  using encryptData_format [OF exampleKey_length, of examplePhone exampleRng] exampleKey_length
  by simp

text \<open>
  C9, as the specification states it: two calls of \<open>encryptData\<close> for the same \<open>x\<close> yield
  two different encodings.  Nothing in the code compares an IV with an earlier one: when the
  random source gives the same twelve bytes twice, here zeros, the two calls return the same
  string.
\<close>

theorem encryptData_same_iv:
  "fst (encryptData (Some exampleKey) (JStr examplePhone) zeroRng)
     = fst (encryptData (Some exampleKey) (JStr examplePhone)
         (snd (encryptData (Some exampleKey) (JStr examplePhone) zeroRng)))
   \<and> \<not> isl (fst (encryptData (Some exampleKey) (JStr examplePhone) zeroRng))"
  by (simp add: encryptData_result [OF exampleKey_length] randomBytes_def zeroRng_def)

text \<open>
  C9, as the code has it: two calls of \<open>encryptData\<close> in a row for the same \<open>x\<close> draw their
  IVs one after the other from the random source; both return an encoding, \<open>decryptData\<close> of
  either is \<open>x\<close>, and the two encodings differ exactly when the two IVs drawn differ.
\<close>

theorem encryptData_twice:
  assumes key: "length (hexDecode k) = 32" and wf: "wellFormed x"
  shows "\<exists>e1 e2.
      fst (encryptData (Some k) (JStr x) g) = Inr e1
    \<and> fst (encryptData (Some k) (JStr x) (snd (encryptData (Some k) (JStr x) g))) = Inr e2
    \<and> (e1 \<noteq> e2) = (fst (randomBytes 12 g) \<noteq> fst (randomBytes 12 (snd (randomBytes 12 g))))
    \<and> decryptData (Some k) (JStr e1) = Inr x
    \<and> decryptData (Some k) (JStr e2) = Inr x"
proof -
  define g' where "g' = snd (randomBytes 12 g)"
  define iv1 where "iv1 = fst (randomBytes 12 g)"
  define iv2 where "iv2 = fst (randomBytes 12 g')"
  define enc where "enc = (\<lambda>iv. hexEncode iv @ colon #
      hexEncode (gcmTag (hexDecode k) iv (gcmCrypt (hexDecode k) iv (utf8Encode x))) @ colon #
      hexEncode (gcmCrypt (hexDecode k) iv (utf8Encode x)))"
  have ne: "iv1 \<noteq> []" "iv2 \<noteq> []"
    using length_randomBytes [of 12 g] length_randomBytes [of 12 g'] by (auto simp: iv1_def iv2_def)
  have r1: "encryptData (Some k) (JStr x) g = (Inr (enc iv1), g')"
    by (simp add: encryptData_result [OF key] enc_def iv1_def g'_def)
  have r2: "encryptData (Some k) (JStr x) g' = (Inr (enc iv2), snd (randomBytes 12 g'))"
    by (simp add: encryptData_result [OF key] enc_def iv2_def)
  have d: "decryptData (Some k) (JStr (enc iv)) = Inr x" if "iv \<noteq> []" for iv
    using decryptData_encoded [OF key that wf, of "[]"] by (simp add: enc_def)
  have "iv1 = iv2" if "enc iv1 = enc iv2"
  proof -
    have "length (hexEncode iv1) = length (hexEncode iv2)"
      by (simp add: length_hexEncode iv1_def iv2_def length_randomBytes)
    with that have "hexEncode iv1 = hexEncode iv2"
      by (simp add: enc_def)
    then have "hexDecode (hexEncode iv1) = hexDecode (hexEncode iv2)" by simp
    then show ?thesis by (simp add: hexDecode_hexEncode)
  qed
  then have "(enc iv1 \<noteq> enc iv2) = (iv1 \<noteq> iv2)" by auto
  then show ?thesis
    using r1 r2 d [OF ne(1)] d [OF ne(2)] by (simp add: iv1_def iv2_def g'_def)
qed

theorem encryptData_twice_witness:
  "length (hexDecode exampleKey) = 32 \<and> wellFormed examplePhone
   \<and> (\<exists>e1 e2.
      fst (encryptData (Some exampleKey) (JStr examplePhone) exampleRng) = Inr e1
    \<and> fst (encryptData (Some exampleKey) (JStr examplePhone)
          (snd (encryptData (Some exampleKey) (JStr examplePhone) exampleRng))) = Inr e2
    \<and> e1 \<noteq> e2
    \<and> decryptData (Some exampleKey) (JStr e1) = Inr examplePhone
    \<and> decryptData (Some exampleKey) (JStr e2) = Inr examplePhone)"
  using encryptData_twice [OF exampleKey_length examplePhone_wellFormed, of exampleRng]
    exampleKey_length examplePhone_wellFormed exampleRng_fresh
  by auto




section \<open>The claims about the schema and the user service\<close>

text \<open>
  C6.  The setter of \<open>phone\<close> returns every falsy value as it is and leaves the random source
  alone: \<open>encryptData\<close> is not called.  The getter has no such guard: it hands every value to
  \<open>decryptData\<close>, which throws on each falsy one, a \<open>TypeError\<close> for \<open>undefined\<close> and
  \<open>null\<close> (they have no \<open>split\<close>), an error of the cipher for the empty string.  The value
  the setter lets through is the value the getter fails on.
\<close>

theorem phone_hooks_falsy:
  "phone_set k JUndefined g = (Inr JUndefined, g)
   \<and> phone_set k JNull g = (Inr JNull, g)
   \<and> phone_set k (JStr []) g = (Inr (JStr []), g)
   \<and> phone_set k (JBool False) g = (Inr (JBool False), g)
   \<and> phone_set k (JNum (Integer 0)) g = (Inr (JNum (Integer 0)), g)
   \<and> phone_set k (JNum NaN) g = (Inr (JNum NaN), g)
   \<and> phone_get k JUndefined = Inl TypeError
   \<and> phone_get k JNull = Inl TypeError
   \<and> phone_get None (JStr []) = Inl ERR_INVALID_ARG_TYPE
   \<and> phone_get (Some key) (JStr []) = Inl ERR_CRYPTO_INVALID_IV"
  by (simp add: phone_set_def phone_get_def decryptData_def element_def Buffer_from_hex_def
      createDecipheriv_def createCipheriv_def)

text \<open>
  C10.  What \<open>login\<close> returns has no \<open>password\<close>: the property is deleted before the
  object is returned; in the scenario, logging in as the user \<open>signup\<close> created returns that
  user without the property.  \<open>signup\<close> returns the array of the documents \<open>create\<close>
  made, and every document in it holds under \<open>password\<close> a bcrypt hash of the password of the
  request, one the password verifies against; the request of the scenario is one for which
  \<open>signup\<close> returns such a document.
\<close>

theorem signup_returns_password_hash:
  "(case signup cfg db inputs g of
      (Inr docs, db', g') \<Rightarrow>
        docs \<noteq> [] \<and> list_all (\<lambda>d. \<exists>h. d ''password'' = Some (JStr h)
          \<and> comparePassword (getProp inputs ''password'') (JStr h) = Inr True) docs
    | (Inl e, db', g') \<Rightarrow> True)
   \<and> (\<exists>g'. signup exampleConfig [] exampleInputs exampleRng = (Inr [exampleUser], [exampleUser], g'))
   \<and> (\<exists>h. exampleUser ''password'' = Some (JStr h)
          \<and> comparePassword (JStr (js ''secret'')) (JStr h) = Inr True)
   \<and> (case login cfg db inputs of Inr u \<Rightarrow> u ''password'' = None | Inl e \<Rightarrow> True)
   \<and> (\<exists>u. login exampleConfig [exampleUser] exampleInputs = Inr u \<and> u ''password'' = None)"
proof -
  have 1: "\<exists>g'. signup exampleConfig [] exampleInputs exampleRng = (Inr [exampleUser], [exampleUser], g')"
    by (simp add: signup_example_eq exampleUser_eq Let_def)
  have "comparePassword (JStr (js ''secret''))
      (JStr (utf8Decode (bcryptString 98 10 (fst (randomBytes 16 exampleRng))
          (bcryptKey 98 (utf8Encode (js ''secret'')))))) = Inr True"
    by (rule comparePassword_bcryptString) (simp_all add: length_randomBytes)
  then have 2: "\<exists>h. exampleUser ''password'' = Some (JStr h)
          \<and> comparePassword (JStr (js ''secret'')) (JStr h) = Inr True"
    by (simp add: exampleUser_eq)
  show ?thesis
    using signup_returns_password [where cfg = cfg and db = db and inputs = inputs and g = g] 1 2
      login_removes_password [where cfg = cfg and db = db and inputs = inputs]
      login_example
    by blast
qed

section \<open>The claims about the credential hasher\<close>







section \<open>The claim about the configuration\<close>

text \<open>
  C5.  When \<open>ENCRYPTION_KEY\<close> is absent or does not decode to exactly 32 bytes, or
  \<open>HASH_COST_FACTOR\<close> is absent or is not a positive integer, the configuration fails to load
  with a \<open>ConfigurationError\<close>: there is then no configuration to start the program with.
  When it does load, the key it holds is the one given and decodes to 32 bytes, and the cost it
  holds is the positive integer given, so \<open>bcrypt.hash\<close> does not put its default in its
  place; with that key \<open>encryptData\<close> returns an encoding for every string.
\<close>

theorem loadConfig_fails_closed:
  "((ENCRYPTION_KEY env = None \<or> (\<exists>k. ENCRYPTION_KEY env = Some k \<and> length (hexDecode k) \<noteq> 32)
      \<or> HASH_COST_FACTOR env = None \<or> (\<exists>c. HASH_COST_FACTOR env = Some c \<and> \<not> positiveInteger c))
     \<longrightarrow> loadConfig env = Inl ConfigurationError)
   \<and> (loadConfig env = Inr cfg \<longrightarrow>
        (\<exists>k c. ENCRYPTION_KEY env = Some k \<and> HASH_COST_FACTOR env = Some c
           \<and> securityKey cfg = Some k \<and> length (hexDecode k) = 32
           \<and> positiveInteger c \<and> saltRound cfg = Integer (decimalValue c))
        \<and> truthy (JNum (saltRound cfg))
        \<and> (\<forall>x g. \<not> isl (fst (encryptData (securityKey cfg) (JStr x) g))))"
proof (intro conjI impI)
  assume "ENCRYPTION_KEY env = None \<or> (\<exists>k. ENCRYPTION_KEY env = Some k \<and> length (hexDecode k) \<noteq> 32)
      \<or> HASH_COST_FACTOR env = None \<or> (\<exists>c. HASH_COST_FACTOR env = Some c \<and> \<not> positiveInteger c)"
  then show "loadConfig env = Inl ConfigurationError"
    using length_hexDecode by (auto simp: loadConfig_def split: option.splits)
next
  assume a: "loadConfig env = Inr cfg"
  from loadConfig_Inr [OF a] obtain k c where
    kc: "ENCRYPTION_KEY env = Some k" "HASH_COST_FACTOR env = Some c" "length k = 64" "hexString k"
      "positiveInteger c" "cfg = \<lparr>securityKey = Some k, saltRound = Integer (decimalValue c)\<rparr>"
    by blast
  have l: "length (hexDecode k) = 32" using length_hexDecode [OF kc(4)] kc(3) by simp
  show "\<exists>k c. ENCRYPTION_KEY env = Some k \<and> HASH_COST_FACTOR env = Some c
           \<and> securityKey cfg = Some k \<and> length (hexDecode k) = 32
           \<and> positiveInteger c \<and> saltRound cfg = Integer (decimalValue c)"
    using kc l by simp
  show "truthy (JNum (saltRound cfg))"
    using kc(5,6) by (simp add: positiveInteger_def)
  show "\<forall>x g. \<not> isl (fst (encryptData (securityKey cfg) (JStr x) g))"
    using kc(6) by (simp add: encryptData_result [OF l])
qed

theorem loadConfig_fails_closed_witness:
  "ENCRYPTION_KEY \<lparr>ENCRYPTION_KEY = None, HASH_COST_FACTOR = Some (js ''10'')\<rparr> = None
   \<and> loadConfig \<lparr>ENCRYPTION_KEY = None, HASH_COST_FACTOR = Some (js ''10'')\<rparr> = Inl ConfigurationError
   \<and> loadConfig \<lparr>ENCRYPTION_KEY = Some exampleKey, HASH_COST_FACTOR = Some (js ''10'')\<rparr> = Inr exampleConfig
   \<and> securityKey exampleConfig = Some exampleKey \<and> length (hexDecode exampleKey) = 32
   \<and> saltRound exampleConfig = Integer 10
   \<and> (\<forall>x g. \<not> isl (fst (encryptData (securityKey exampleConfig) (JStr x) g)))"
proof -
  have l: "loadConfig \<lparr>ENCRYPTION_KEY = Some exampleKey, HASH_COST_FACTOR = Some (js ''10'')\<rparr> = Inr exampleConfig"
    by (simp add: loadConfig_def exampleKey_hex decimal_10 exampleConfig_def)
  show ?thesis
    using loadConfig_fails_closed [where env = "\<lparr>ENCRYPTION_KEY = None, HASH_COST_FACTOR = Some (js ''10'')\<rparr>"
        and cfg = exampleConfig]
      loadConfig_fails_closed [where env = "\<lparr>ENCRYPTION_KEY = Some exampleKey, HASH_COST_FACTOR = Some (js ''10'')\<rparr>"
        and cfg = exampleConfig] l
    by (auto simp: exampleConfig_def decimal_10)
qed

end
